theory Spec2Isabelle
  imports Main
begin

section \<open>Strings and numbers as the JavaScript source uses them\<close>

text \<open>
  A JavaScript string is modelled as a \<open>string\<close> (a list of characters, the UTF-8
  bytes of the text). Every pattern the source matches against is ASCII, so matching
  on bytes and matching on UTF-16 code units agree.
\<close>

definition nl :: char where
  "nl = CHR 0x0A"

definition sq :: char where
  "sq = CHR 0x27"

definition digit_char :: "nat \<Rightarrow> char" where
  "digit_char d = ''0123456789'' ! d"

text \<open>
  Number to string, as a template literal \<^verbatim>\<open>`${n}`\<close> prints a non-negative integer.
  JavaScript numbers are doubles: the model is exact for integers below \<open>2 ^ 53\<close>
  (\<open>safeInteger\<close>), which the theorems about version numbers assume.
\<close>

fun numberToString :: "nat \<Rightarrow> string" where
  "numberToString n =
     (if n < 10 then [digit_char n]
      else numberToString (n div 10) @ [digit_char (n mod 10)])"

declare numberToString.simps [simp del]

definition safeInteger :: "nat \<Rightarrow> bool" where
  "safeInteger n = (n < 2 ^ 53)"

text \<open>The class \<^verbatim>\<open>\d\<close> of a JavaScript regular expression: the ten ASCII digits.\<close>

definition is_digit :: "char \<Rightarrow> bool" where
  "is_digit c = (c \<in> set ''0123456789'')"

definition digit_val :: "char \<Rightarrow> nat" where
  "digit_val c = of_char c - 48"

text \<open>
  \<^verbatim>\<open>parseInt(s, 10)\<close>, which the source applies only to the capture of \<^verbatim>\<open>(\d+)\<close>:
  a non-empty string of digits.
\<close>

definition parseInt :: "string \<Rightarrow> nat" where
  "parseInt ds = foldl (\<lambda>a c. 10 * a + digit_val c) 0 ds"

text \<open>
  The ASCII characters, and upper-casing on them: a lower-case ASCII letter becomes its
  upper-case letter, every other character stays. This is what
  \<^verbatim>\<open>String.prototype.toUpperCase\<close> does to a string of ASCII characters; what it does
  to other code points is decided by the Unicode case tables, which are no part of the
  source, so the function itself is a collaborator of the \<open>world\<close> below.
\<close>

definition isAscii :: "char \<Rightarrow> bool" where
  "isAscii c = (of_char c < (128 :: nat))"

definition asciiUpperChar :: "char \<Rightarrow> char" where
  "asciiUpperChar c =
     (case map_of (zip ''abcdefghijklmnopqrstuvwxyz'' ''ABCDEFGHIJKLMNOPQRSTUVWXYZ'') c of
        None \<Rightarrow> c
      | Some u \<Rightarrow> u)"

text \<open>
  \<^verbatim>\<open>String.prototype.trim\<close>: white space and line terminators removed at both ends
  (the ASCII ones: tab, line feed, vertical tab, form feed, carriage return, space).
\<close>

definition is_space :: "char \<Rightarrow> bool" where
  "is_space c = (c \<in> set [CHR 0x09, CHR 0x0A, CHR 0x0B, CHR 0x0C, CHR 0x0D, CHR 0x20])"

definition trim :: "string \<Rightarrow> string" where
  "trim s = rev (dropWhile is_space (rev (dropWhile is_space s)))"

text \<open>
  \<^verbatim>\<open>s.replace(/c/g, r)\<close> for a one-character pattern: every occurrence of the character
  is replaced.
\<close>

definition replaceAllChar :: "char \<Rightarrow> string \<Rightarrow> string \<Rightarrow> string" where
  "replaceAllChar c r s = concat (map (\<lambda>x. if x = c then r else [x]) s)"

text \<open>
  The two regular expressions of the source have one shape: a literal, the capture
  \<^verbatim>\<open>(\d+)\<close>, a literal (empty, or one that does not start with a digit, so the greedy
  \<^verbatim>\<open>\d+\<close> never has to give a digit back). A \<open>regex\<close> is the pair of the two literals.
\<close>

type_synonym regex = "string \<times> string"

fun strip_prefix :: "string \<Rightarrow> string \<Rightarrow> string option" where
  "strip_prefix [] s = Some s"
| "strip_prefix (p # ps) [] = None"
| "strip_prefix (p # ps) (c # cs) = (if p = c then strip_prefix ps cs else None)"

text \<open>A match that starts at the head of the string: the capture and what follows the match.\<close>

definition match_here :: "regex \<Rightarrow> string \<Rightarrow> (string \<times> string) option" where
  "match_here re s =
     (case strip_prefix (fst re) s of
        None \<Rightarrow> None
      | Some r \<Rightarrow>
          (let ds = takeWhile is_digit r in
           if ds = [] then None
           else (case strip_prefix (snd re) (dropWhile is_digit r) of
                   None \<Rightarrow> None
                 | Some post \<Rightarrow> Some (ds, post))))"

text \<open>
  \<^verbatim>\<open>re.exec(s)\<close> of a regular expression without flags: the leftmost match, as the text
  before it (the first argument collects it), the capture and the text after it;
  \<open>None\<close> is JavaScript's \<^verbatim>\<open>null\<close>.
\<close>

fun regex_search :: "regex \<Rightarrow> string \<Rightarrow> string \<Rightarrow> (string \<times> string \<times> string) option" where
  "regex_search re pre [] =
     (case match_here re [] of None \<Rightarrow> None | Some (ds, post) \<Rightarrow> Some (pre, ds, post))"
| "regex_search re pre (c # cs) =
     (case match_here re (c # cs) of
        None \<Rightarrow> regex_search re (pre @ [c]) cs
      | Some (ds, post) \<Rightarrow> Some (pre, ds, post))"

definition regex_exec :: "regex \<Rightarrow> string \<Rightarrow> (string \<times> string \<times> string) option" where
  "regex_exec re s = regex_search re [] s"

text \<open>
  \<^verbatim>\<open>s.replace(re, r)\<close> with a replacement string free of \<^verbatim>\<open>$\<close>: the first match is
  replaced, and a string without a match is returned as it is.
\<close>

definition regex_replace :: "regex \<Rightarrow> string \<Rightarrow> string \<Rightarrow> string" where
  "regex_replace re s r =
     (case regex_exec re s of None \<Rightarrow> s | Some (pre, ds, post) \<Rightarrow> pre @ r @ post)"

definition patchLevelRegex :: regex where
  "patchLevelRegex = (''V8_PATCH_LEVEL '', [])"

definition embedderRegex :: regex where
  "embedderRegex = ([sq] @ ''v8_embedder_string'' @ [sq] @ '': '' @ [sq] @ ''-node.'', [sq])"

section \<open>Data model\<close>

text \<open>
  A patch object of \<^verbatim>\<open>generatePatches\<close>. The source never writes \<open>hadConflicts\<close> before
  a failed apply: the absent field is falsy, \<open>False\<close> here.
\<close>

record patch =
  sha :: string
  data :: string
  message :: string
  hadConflicts :: bool

datatype error = CommandFailed string | TypeError string

text \<open>What the run does to the outside, in the order it does it.\<close>

datatype event =
    GitV8 "string list"
  | GitNode string "string list" "string option"
  | ForceRun string "string list" string
  | ReadFile string
  | WriteFile string string
  | Confirm string
  | Prompt string

text \<open>
  How an asynchronous call ends: it returns, it throws (its promise rejects), or it
  never settles because the operator gives no further input.
\<close>

datatype 'a outcome = Returned 'a | Thrown error | Blocked

text \<open>
  The options of one invocation, which are also the context the tasks share
  (\<open>shas\<close> is the source's \<^verbatim>\<open>options.sha\<close>, \<open>currentVersionPatch\<close> its
  \<^verbatim>\<open>ctx.currentVersion.patch\<close>; \<open>bump\<close> is \<open>None\<close> when the option is not given).
  The patch objects live in \<open>patches\<close> and a task refers to one by its index there
  (the task builders take the indices from the list itself, and nothing shortens the
  list), so that the flag a failed apply sets is seen by the later steps that hold the
  same object. The last three fields are the run's account of the outside: the events so
  far, and the operator's pending answers to confirmations and lines typed at prompts.
\<close>

record ctx =
  shas :: "string list"
  squash :: bool
  preserveOriginalAuthor :: bool
  bump :: "bool option"
  nodeMajorVersion :: nat
  nodeDir :: string
  gpgSign :: "string list"
  currentVersionPatch :: nat
  patches :: "patch list"
  trace :: "event list"
  answers :: "bool list"
  inputs :: "string list"

text \<open>
  The collaborators the module imports or finds on the context, none of them in this
  file of the repository: \<^verbatim>\<open>shortSha\<close> of \<^verbatim>\<open>../utils.js\<close>, \<^verbatim>\<open>path.join\<close>, the upstream
  clone answering \<^verbatim>\<open>ctx.execGitV8\<close> (the module only queries it with rev-parse,
  format-patch and log, so its answer depends on the arguments alone), the order in
  which the promises of the k-th \<^verbatim>\<open>Promise.all\<close> of patch generation settle, and every
  other command or file access, whose answer may depend on all that happened before.
  \<open>Inl\<close> is a command that fails. \<open>toUpperCase\<close> is the language's
  \<^verbatim>\<open>String.prototype.toUpperCase\<close>, with its Unicode case tables.
\<close>

record world =
  toUpperCase :: "string \<Rightarrow> string"
  shortSha :: "string \<Rightarrow> string"
  pathJoin :: "string \<Rightarrow> string \<Rightarrow> string"
  gitV8 :: "string list \<Rightarrow> error + string"
  settleOrder :: "nat \<Rightarrow> nat list"
  outside :: "event list \<Rightarrow> event \<Rightarrow> error + string"

section \<open>Asynchronous calls\<close>

text \<open>\<^verbatim>\<open>await m\<close> followed by the rest of the function: a throw or a block ends it.\<close>

definition await :: "(ctx \<Rightarrow> 'a outcome \<times> ctx) \<Rightarrow> ('a \<Rightarrow> ctx \<Rightarrow> 'b outcome \<times> ctx) \<Rightarrow> ctx \<Rightarrow> 'b outcome \<times> ctx" where
  "await m f s =
     (case m s of
        (Returned a, s') \<Rightarrow> f a s'
      | (Thrown e, s') \<Rightarrow> (Thrown e, s')
      | (Blocked, s') \<Rightarrow> (Blocked, s'))"

definition return :: "'a \<Rightarrow> ctx \<Rightarrow> 'a outcome \<times> ctx" where
  "return a s = (Returned a, s)"

definition throw :: "error \<Rightarrow> ctx \<Rightarrow> 'a outcome \<times> ctx" where
  "throw e s = (Thrown e, s)"

definition perform :: "world \<Rightarrow> event \<Rightarrow> ctx \<Rightarrow> string outcome \<times> ctx" where
  "perform w e s =
     (case outside w (trace s) e of Inl err \<Rightarrow> Thrown err | Inr out \<Rightarrow> Returned out,
      s\<lparr>trace := trace s @ [e]\<rparr>)"

definition execGitNode :: "world \<Rightarrow> string \<Rightarrow> string list \<Rightarrow> string option \<Rightarrow> ctx \<Rightarrow> string outcome \<times> ctx" where
  "execGitNode w cmd args input = perform w (GitNode cmd args input)"

definition readFile :: "world \<Rightarrow> string \<Rightarrow> ctx \<Rightarrow> string outcome \<times> ctx" where
  "readFile w path = perform w (ReadFile path)"

definition writeFile :: "world \<Rightarrow> string \<Rightarrow> string \<Rightarrow> ctx \<Rightarrow> string outcome \<times> ctx" where
  "writeFile w path content = perform w (WriteFile path content)"

text \<open>
  \<^verbatim>\<open>forceRunAsync(cmd, args, {ignoreFailure: false, captureStdout: true,
  spawnArgs: {cwd}})\<close> of \<^verbatim>\<open>../run.js\<close>: the captured output, or a throw.
\<close>

definition forceRunAsync :: "world \<Rightarrow> string \<Rightarrow> string list \<Rightarrow> string \<Rightarrow> ctx \<Rightarrow> string outcome \<times> ctx" where
  "forceRunAsync w cmd args cwd = perform w (ForceRun cmd args cwd)"

text \<open>
  Modelled from the spec: the interactive confirmation of \<^verbatim>\<open>@inquirer/prompts\<close>,
  "\<open>confirm(message, default) \<rightarrow> boolean\<close>". The run blocks while the operator gives no
  answer.
\<close>

definition confirm :: "string \<Rightarrow> ctx \<Rightarrow> bool outcome \<times> ctx" where
  "confirm msg s =
     (case answers s of
        [] \<Rightarrow> (Blocked, s\<lparr>trace := trace s @ [Confirm msg]\<rparr>)
      | a # rest \<Rightarrow> (Returned a, s\<lparr>trace := trace s @ [Confirm msg], answers := rest\<rparr>))"

text \<open>
  Modelled from the spec: the validated prompt of the task runner's prompt adapter,
  "\<open>prompt(message, validator) \<rightarrow> string\<close>, re-prompting until \<open>validator\<close> accepts". Each
  line the operator types is validated; a line that is refused is dropped and the
  prompt stays open, so a run whose operator never types an accepted line is blocked.
\<close>

fun prompt_loop :: "(string \<Rightarrow> bool) \<Rightarrow> string list \<Rightarrow> (string \<times> string list) option" where
  "prompt_loop validate [] = None"
| "prompt_loop validate (v # vs) = (if validate v then Some (v, vs) else prompt_loop validate vs)"

definition prompt_run :: "string \<Rightarrow> (string \<Rightarrow> bool) \<Rightarrow> ctx \<Rightarrow> string outcome \<times> ctx" where
  "prompt_run msg validate s =
     (case prompt_loop validate (inputs s) of
        None \<Rightarrow> (Blocked, s\<lparr>trace := trace s @ [Prompt msg], inputs := []\<rparr>)
      | Some (v, rest) \<Rightarrow> (Returned v, s\<lparr>trace := trace s @ [Prompt msg], inputs := rest\<rparr>))"

text \<open>
  \<^verbatim>\<open>Promise.all\<close>: the promises settle in the order \<open>order\<close> (indices into \<open>rs\<close>); the
  value of promise \<open>i\<close> is stored in slot \<open>i\<close>; the first rejection rejects the whole;
  it is fulfilled, with the slots, once every slot is filled.
\<close>

fun settle :: "nat list \<Rightarrow> 'a outcome list \<Rightarrow> 'a option list \<Rightarrow> 'a list outcome" where
  "settle [] rs slots =
     (if list_all (\<lambda>v. v \<noteq> None) slots then Returned (map the slots) else Blocked)"
| "settle (i # order) rs slots =
     (if i < length rs then
        (case rs ! i of
           Returned v \<Rightarrow> settle order rs (slots[i := Some v])
         | Thrown e \<Rightarrow> Thrown e
         | Blocked \<Rightarrow> settle order rs slots)
      else settle order rs slots)"

definition promiseAll :: "nat list \<Rightarrow> 'a outcome list \<Rightarrow> 'a list outcome" where
  "promiseAll order rs = settle order rs (replicate (length rs) None)"

text \<open>
  Modelled from the spec: the task runner (listr2), "register an ordered (optionally
  nested) list of named steps, run them in order, surface failures". A task is a title
  and a body; a list of tasks runs in order and stops at the first that does not
  return.
\<close>

record listr_task =
  title :: string
  task :: "ctx \<Rightarrow> unit outcome \<times> ctx"

fun newListr :: "listr_task list \<Rightarrow> ctx \<Rightarrow> unit outcome \<times> ctx" where
  "newListr [] s = (Returned (), s)"
| "newListr (t # ts) s =
     (case task t s of
        (Returned u, s') \<Rightarrow> newListr ts s'
      | (Thrown e, s') \<Rightarrow> (Thrown e, s')
      | (Blocked, s') \<Rightarrow> (Blocked, s'))"

text \<open>A task body whose result the runner does not use.\<close>

definition discard :: "(ctx \<Rightarrow> 'a outcome \<times> ctx) \<Rightarrow> ctx \<Rightarrow> unit outcome \<times> ctx" where
  "discard m = await m (\<lambda>a. return ())"

section \<open>The module \<^verbatim>\<open>lib/update-v8/backport.js\<close>\<close>

subsection \<open>Pre-flight check\<close>

definition squashWarning :: string where
  "squashWarning =
     ''Squashing commits should be avoided if possible, because it '' @
     ''can make git bisection difficult. Only squash commits if they would '' @
     ''break the build when applied individually. Are you sure?''"

text \<open>\<^verbatim>\<open>checkOptions\<close> returns \<^verbatim>\<open>true\<close> (\<open>Some True\<close>) or \<^verbatim>\<open>undefined\<close> (\<open>None\<close>).\<close>

definition checkOptions :: "ctx \<Rightarrow> bool option outcome \<times> ctx" where
  "checkOptions options =
     (if length (shas options) > 1 \<and> squash options then
        await (confirm squashWarning)
          (\<lambda>wantSquash. if \<not> wantSquash then return (Some True) else return None) options
      else return None options)"

subsection \<open>Commit messages\<close>

definition formatMessageTitle :: "(string \<Rightarrow> string) \<Rightarrow> patch list \<Rightarrow> string" where
  "formatMessageTitle short ps =
     (let action = (if list_ex hadConflicts ps then ''backport'' else ''cherry-pick'') in
      if length ps = 1 then
        ''deps: V8: '' @ action @ '' '' @ short (sha (ps ! 0))
      else if length ps = 2 then
        ''deps: V8: '' @ action @ '' '' @ short (sha (ps ! 0)) @ '' and '' @
          short (sha (ps ! 1))
      else if length ps = 3 then
        ''deps: V8: '' @ action @ '' '' @ short (sha (ps ! 0)) @ '', '' @
          short (sha (ps ! 1)) @ '' and '' @ short (sha (ps ! 2))
      else
        ''deps: V8: '' @ action @ '' '' @ numberToString (length ps) @ '' commits'')"

text \<open>The third parameter has the default \<^verbatim>\<open>''\<close>: \<open>None\<close> is a missing or undefined argument.\<close>

definition formatMessageBody :: "(string \<Rightarrow> string) \<Rightarrow> patch \<Rightarrow> bool \<Rightarrow> string option \<Rightarrow> string" where
  "formatMessageBody short p prefixTitle trailers =
     (let indentedMessage = replaceAllChar nl (nl # ''    '') (message p);
          body =
            ''Original commit message:'' @ [nl, nl] @
            ''    '' @ indentedMessage @ [nl, nl] @
            ''Refs: https://github.com/v8/v8/commit/'' @ sha p @
              (case trailers of None \<Rightarrow> [] | Some t \<Rightarrow> t)
      in if prefixTitle then
           (if hadConflicts p then ''Backport'' else ''Cherry-pick'') @ '' '' @
             short (sha p) @ ''.'' @ [nl] @ body
         else body)"

text \<open>The message body that \<^verbatim>\<open>commitSquashedBackport\<close> builds (its lines 65 to 75).\<close>

definition squashedMessageBody :: "(string \<Rightarrow> string) \<Rightarrow> patch list \<Rightarrow> string" where
  "squashedMessageBody short ps =
     (if length ps = 1 then formatMessageBody short (ps ! 0) False None
      else foldl (\<lambda>messageBody p. messageBody @ formatMessageBody short p True None @ [nl, nl]) [] ps)"

definition commitSquashedBackport :: "world \<Rightarrow> listr_task" where
  "commitSquashedBackport w =
     \<lparr>title = ''Commit backport'',
      task = (\<lambda>s.
        let messageTitle = formatMessageTitle (shortSha w) (patches s);
            messageBody = squashedMessageBody (shortSha w) (patches s)
        in await (execGitNode w ''add'' [''deps/v8''] None) (\<lambda>r1.
           await (execGitNode w ''commit'' [''-m'', messageTitle, ''-m'', messageBody] None) (\<lambda>r2.
           return ())) s)\<rparr>"

text \<open>
  \<^verbatim>\<open>commitTask(patch, extraArgs, trailers)\<close>: \<open>extraArgs = None\<close> is a call without the
  argument. The array literal of the commit's arguments spreads \<^verbatim>\<open>...extraArgs\<close>, and
  spreading \<^verbatim>\<open>undefined\<close> throws a TypeError before the commit command is called.
\<close>

definition commitTask :: "world \<Rightarrow> nat \<Rightarrow> string list option \<Rightarrow> string option \<Rightarrow> ctx \<Rightarrow> unit outcome \<times> ctx" where
  "commitTask w i extraArgs trailers s =
     (let messageTitle = formatMessageTitle (shortSha w) [patches s ! i];
          messageBody = formatMessageBody (shortSha w) (patches s ! i) False trailers
      in await (execGitNode w ''add'' [''deps/v8''] None) (\<lambda>r1 s1.
           case extraArgs of
             None \<Rightarrow> throw (TypeError ''extraArgs is not iterable'') s1
           | Some extra \<Rightarrow>
               await (execGitNode w ''commit''
                        (gpgSign s1 @ extra @ [''-m'', messageTitle, ''-m'', messageBody]) None)
                 (\<lambda>r2. return ()) s1) s)"

definition getGitConfigEntry :: "world \<Rightarrow> string \<Rightarrow> ctx \<Rightarrow> string outcome \<times> ctx" where
  "getGitConfigEntry w configKey s =
     await (forceRunAsync w ''git'' [''config'', configKey] (nodeDir s))
       (\<lambda>output. return (trim output)) s"

definition amendHEAD :: "world \<Rightarrow> nat \<Rightarrow> listr_task" where
  "amendHEAD w i =
     \<lparr>title = ''Amend/commit'',
      task = (\<lambda>s.
        if hadConflicts (patches s ! i) then
          await (execGitNode w ''am'' (gpgSign s @ [''--continue'']) None) (\<lambda>r1.
          await (getGitConfigEntry w ''user.name'') (\<lambda>name.
          await (getGitConfigEntry w ''user.email'') (\<lambda>email.
          commitTask w i (Some [''--amend''])
            (Some ([nl] @ ''Co-authored-by: '' @ name @ '' <'' @ email @ ''>''))))) s
        else commitTask w i (Some [''--amend'']) None s)\<rparr>"

definition commitPatch :: "world \<Rightarrow> nat \<Rightarrow> listr_task" where
  "commitPatch w i = \<lparr>title = ''Commit patch'', task = commitTask w i None None\<rparr>"

subsection \<open>Patch generation\<close>

definition mapReturned :: "('a \<Rightarrow> 'b) \<Rightarrow> 'a outcome \<Rightarrow> 'b outcome" where
  "mapReturned f r = (case r of Returned a \<Rightarrow> Returned (f a) | Thrown e \<Rightarrow> Thrown e | Blocked \<Rightarrow> Blocked)"

definition execGitV8 :: "world \<Rightarrow> string list \<Rightarrow> string outcome" where
  "execGitV8 w args = (case gitV8 w args of Inl err \<Rightarrow> Thrown err | Inr out \<Rightarrow> Returned out)"

definition revParseArgs :: "string \<Rightarrow> string list" where
  "revParseArgs ref = [''rev-parse'', ref]"

definition formatPatchArgs :: "string \<Rightarrow> string list" where
  "formatPatchArgs full = [''format-patch'', ''--stdout'', full @ ''^..'' @ full]"

definition logArgs :: "string \<Rightarrow> string list" where
  "logArgs full = [''log'', ''--format=%B'', ''-n'', ''1'', full]"

text \<open>
  The body of the second \<^verbatim>\<open>map\<close> of \<^verbatim>\<open>generatePatches\<close>, for the \<open>i\<close>-th full SHA: the
  inner \<^verbatim>\<open>Promise.all\<close> of the two fetches is the \<open>(2 + i)\<close>-th of the task.
\<close>

definition fetchPatch :: "world \<Rightarrow> nat \<Rightarrow> string \<Rightarrow> patch outcome" where
  "fetchPatch w i full =
     mapReturned
       (\<lambda>both. \<lparr>sha = full, data = both ! 0, message = both ! 1, hadConflicts = False\<rparr>)
       (promiseAll (settleOrder w (2 + i))
          [execGitV8 w (formatPatchArgs full), execGitV8 w (logArgs full)])"

text \<open>
  Every call of a \<^verbatim>\<open>map\<close> over an async function is issued before any of them
  settles, so the commands enter the trace in the order of the list, whatever the
  order in which they complete.
\<close>

definition generatePatches :: "world \<Rightarrow> listr_task" where
  "generatePatches w =
     \<lparr>title = ''Generate patches'',
      task = (\<lambda>s.
        let s1 = s\<lparr>trace := trace s @ map (\<lambda>ref. GitV8 (revParseArgs ref)) (shas s)\<rparr> in
        case promiseAll (settleOrder w 0)
               (map (\<lambda>ref. mapReturned trim (execGitV8 w (revParseArgs ref))) (shas s)) of
          Thrown e \<Rightarrow> (Thrown e, s1)
        | Blocked \<Rightarrow> (Blocked, s1)
        | Returned fullShas \<Rightarrow>
            (let s2 = s1\<lparr>trace := trace s1 @
                        concat (map (\<lambda>full. [GitV8 (formatPatchArgs full), GitV8 (logArgs full)])
                                  fullShas)\<rparr> in
             case promiseAll (settleOrder w 1)
                    (map (\<lambda>(i, full). fetchPatch w i full) (enumerate 0 fullShas)) of
               Thrown e \<Rightarrow> (Thrown e, s2)
             | Blocked \<Rightarrow> (Blocked, s2)
             | Returned ps \<Rightarrow> (Returned (), s2\<lparr>patches := ps\<rparr>)))\<rparr>"

subsection \<open>Applying a patch\<close>

definition resolveMessage :: string where
  "resolveMessage = ''Resolve merge conflicts and enter '' @ [sq] @ ''RESOLVED'' @ [sq]"

definition validate :: "world \<Rightarrow> string \<Rightarrow> bool" where
  "validate w v = (toUpperCase w v = ''RESOLVED'')"

definition setHadConflicts :: "nat \<Rightarrow> ctx \<Rightarrow> ctx" where
  "setHadConflicts i s = s\<lparr>patches := (patches s)[i := (patches s ! i)\<lparr>hadConflicts := True\<rparr>]\<rparr>"

text \<open>
  \<^verbatim>\<open>applyPatch(ctx, task, patch, method)\<close>, the patch being the \<open>i\<close>-th of the context.
  It returns \<^verbatim>\<open>undefined\<close> (\<open>None\<close>) after a clean apply and the operator's line after a
  failed one.
\<close>

definition applyPatch :: "world \<Rightarrow> nat \<Rightarrow> string \<Rightarrow> ctx \<Rightarrow> string option outcome \<times> ctx" where
  "applyPatch w i method s =
     (case execGitNode w method [''-p1'', ''--3way'', ''--directory=deps/v8'']
             (Some (data (patches s ! i))) s of
        (Returned out, s') \<Rightarrow> (Returned None, s')
      | (Thrown e, s') \<Rightarrow>
          await (prompt_run resolveMessage (validate w)) (\<lambda>v. return (Some v))
            (setHadConflicts i s')
      | (Blocked, s') \<Rightarrow> (Blocked, s'))"

fun applyPatchesLoop :: "world \<Rightarrow> nat list \<Rightarrow> ctx \<Rightarrow> unit outcome \<times> ctx" where
  "applyPatchesLoop w [] s = (Returned (), s)"
| "applyPatchesLoop w (i # rest) s =
     await (applyPatch w i ''apply'') (\<lambda>r. applyPatchesLoop w rest) s"

definition applyPatches :: "world \<Rightarrow> listr_task" where
  "applyPatches w =
     \<lparr>title = ''Apply patches to deps/v8'',
      task = (\<lambda>s. applyPatchesLoop w [0..<length (patches s)] s)\<rparr>"

subsection \<open>Version bumps\<close>

definition incrementV8Version :: "world \<Rightarrow> listr_task" where
  "incrementV8Version w =
     \<lparr>title = ''Increment V8 version'',
      task = (\<lambda>s.
        let incremented = currentVersionPatch s + 1;
            s0 = s\<lparr>currentVersionPatch := incremented\<rparr>;
            versionHPath = nodeDir s @ ''/deps/v8/include/v8-version.h''
        in await (readFile w versionHPath) (\<lambda>versionH.
           await (writeFile w versionHPath
                    (regex_replace patchLevelRegex versionH
                       (''V8_PATCH_LEVEL '' @ numberToString incremented))) (\<lambda>r.
           return ())) s0)\<rparr>"

text \<open>
  \<^verbatim>\<open>embedderRegex.exec(commonGypi)[1]\<close> reads index 1 of \<^verbatim>\<open>null\<close> when there is no
  match: a TypeError.
\<close>

definition incrementEmbedderVersion :: "world \<Rightarrow> listr_task" where
  "incrementEmbedderVersion w =
     \<lparr>title = ''Increment embedder version number'',
      task = (\<lambda>s.
        let commonGypiPath = pathJoin w (nodeDir s) ''common.gypi'' in
        await (readFile w commonGypiPath) (\<lambda>commonGypi.
          case regex_exec embedderRegex commonGypi of
            None \<Rightarrow> throw (TypeError ''Cannot read properties of null'')
          | Some (pre, ds, post) \<Rightarrow>
              (let embedderValue = parseInt ds;
                   embedderString =
                     [sq] @ ''v8_embedder_string'' @ [sq] @ '': '' @ [sq] @ ''-node.'' @
                     numberToString (embedderValue + 1) @ [sq]
               in await (writeFile w commonGypiPath
                           (regex_replace embedderRegex commonGypi embedderString)) (\<lambda>r1.
                  await (execGitNode w ''add'' [''common.gypi''] None) (\<lambda>r2.
                  return ())))) s)\<rparr>"

text \<open>
  The version bump that the planner and the two per-patch task builders insert, each
  with the same test (\<^verbatim>\<open>bump !== false\<close>, then \<^verbatim>\<open>nodeMajorVersion < 9\<close>).
\<close>

definition bumpTasks :: "world \<Rightarrow> ctx \<Rightarrow> listr_task list" where
  "bumpTasks w c =
     (if bump c \<noteq> Some False then
        (if nodeMajorVersion c < 9 then [incrementV8Version w] else [incrementEmbedderVersion w])
      else [])"

subsection \<open>Per-patch tasks and the planner\<close>

text \<open>
  \<^verbatim>\<open>applyPatchTask(patch)\<close> and \<^verbatim>\<open>cherryPickV8CommitTask(patch)\<close> are created by a \<^verbatim>\<open>map\<close>
  over \<^verbatim>\<open>ctx.patches\<close>: \<open>c\<close> is the context at that moment (the title reads the SHA
  there), \<open>i\<close> the patch's index.
\<close>

definition applyPatchTask :: "world \<Rightarrow> ctx \<Rightarrow> nat \<Rightarrow> listr_task" where
  "applyPatchTask w c i =
     \<lparr>title = ''Commit '' @ shortSha w (sha (patches c ! i)),
      task = (\<lambda>s.
        newListr
          ([\<lparr>title = ''Apply patch'', task = discard (applyPatch w i ''apply'')\<rparr>] @
           bumpTasks w s @
           [commitPatch w i]) s)\<rparr>"

definition cherryPickV8CommitTask :: "world \<Rightarrow> ctx \<Rightarrow> nat \<Rightarrow> listr_task" where
  "cherryPickV8CommitTask w c i =
     \<lparr>title = ''Commit '' @ shortSha w (sha (patches c ! i)),
      task = (\<lambda>s.
        newListr
          ([\<lparr>title = ''Cherry-pick'', task = discard (applyPatch w i ''am'')\<rparr>] @
           bumpTasks w s @
           [amendHEAD w i]) s)\<rparr>"

definition applyAndCommitPatches :: "world \<Rightarrow> listr_task" where
  "applyAndCommitPatches w =
     \<lparr>title = ''Apply and commit patches to deps/v8'',
      task = (\<lambda>s. newListr (map (applyPatchTask w s) [0..<length (patches s)]) s)\<rparr>"

definition cherryPickV8Commits :: "world \<Rightarrow> listr_task" where
  "cherryPickV8Commits w =
     \<lparr>title = ''Cherry-pick commit from V8 clone to deps/v8'',
      task = (\<lambda>s. newListr (map (cherryPickV8CommitTask w s) [0..<length (patches s)]) s)\<rparr>"

text \<open>
  The task list \<^verbatim>\<open>todo\<close> of \<^verbatim>\<open>doBackport\<close>. \<^verbatim>\<open>getCurrentV8Version\<close> is imported from
  \<^verbatim>\<open>./common.js\<close>: its task is a parameter.
\<close>

definition todo :: "world \<Rightarrow> listr_task \<Rightarrow> ctx \<Rightarrow> listr_task list" where
  "todo w getCurrentV8Version options =
     [getCurrentV8Version, generatePatches w] @
     (if squash options then
        [applyPatches w] @ bumpTasks w options @ [commitSquashedBackport w]
      else if preserveOriginalAuthor options then [cherryPickV8Commits w]
      else [applyAndCommitPatches w])"

definition doBackport :: "world \<Rightarrow> listr_task \<Rightarrow> ctx \<Rightarrow> listr_task" where
  "doBackport w getCurrentV8Version options =
     \<lparr>title = ''V8 commit backport'',
      task = newListr (todo w getCurrentV8Version options)\<rparr>"

text \<open>
  Modelled from the spec: the caller of \<^verbatim>\<open>checkOptions\<close> and \<^verbatim>\<open>doBackport\<close>, which is not
  in this file of the repository: "declining aborts the run before any patch is
  generated or applied". The run starts from the options as its context.
\<close>

definition backport :: "world \<Rightarrow> listr_task \<Rightarrow> ctx \<Rightarrow> unit outcome \<times> ctx" where
  "backport w getCurrentV8Version options =
     await checkOptions
       (\<lambda>shouldStop. if shouldStop = Some True then return ()
                      else task (doBackport w getCurrentV8Version options)) options"

section \<open>The specification's wording of the message layout\<close>

text \<open>
  The specification describes the body as the original message indented by four
  spaces: the message is cut into its lines, each line gets the indent, and the lines
  are put together again with newlines.
\<close>

fun splitOn :: "char \<Rightarrow> string \<Rightarrow> string list" where
  "splitOn c [] = [[]]"
| "splitOn c (x # xs) =
     (if x = c then [] # splitOn c xs
      else (case splitOn c xs of [] \<Rightarrow> [[x]] | l # ls \<Rightarrow> (x # l) # ls))"

fun joinWith :: "string \<Rightarrow> string list \<Rightarrow> string" where
  "joinWith sep [] = []"
| "joinWith sep [l] = l"
| "joinWith sep (l # k # ls) = l @ sep @ joinWith sep (k # ls)"

definition indentLines :: "string \<Rightarrow> string" where
  "indentLines m = joinWith [nl] (map (\<lambda>l. ''    '' @ l) (splitOn nl m))"

section \<open>Example inputs\<close>

definition examplePatchA :: patch where
  "examplePatchA =
     \<lparr>sha = ''aaaaaaaa1111'', data = ''diff A'',
      message = ''fix a'' @ [nl] @ ''more'' @ [nl], hadConflicts = False\<rparr>"

definition examplePatchB :: patch where
  "examplePatchB =
     \<lparr>sha = ''bbbbbbbb2222'', data = ''diff B'', message = ''fix b'', hadConflicts = True\<rparr>"

definition examplePatchC :: patch where
  "examplePatchC =
     \<lparr>sha = ''cccccccc3333'', data = ''diff C'', message = ''fix c'', hadConflicts = False\<rparr>"

text \<open>
  A world in which every command succeeds with empty output. Its operator types ASCII
  lines, for which ASCII upper-casing is \<^verbatim>\<open>toUpperCase\<close>.
\<close>

definition quietWorld :: world where
  "quietWorld =
     \<lparr>toUpperCase = map asciiUpperChar,
      shortSha = take 8,
      pathJoin = (\<lambda>dir file. dir @ ''/'' @ file),
      gitV8 = (\<lambda>args. Inr []),
      settleOrder = (\<lambda>k. []),
      outside = (\<lambda>history e. Inr [])\<rparr>"

definition exampleCtx :: ctx where
  "exampleCtx =
     \<lparr>shas = [''aaaaaaaa'', ''bbbbbbbb''], squash = True, preserveOriginalAuthor = False,
      bump = None, nodeMajorVersion = 20, nodeDir = ''/node'', gpgSign = [],
      currentVersionPatch = 12, patches = [examplePatchA, examplePatchB],
      trace = [], answers = [], inputs = []\<rparr>"

text \<open>A stand-in for the imported task \<^verbatim>\<open>getCurrentV8Version\<close>.\<close>

definition noTask :: listr_task where
  "noTask = \<lparr>title = ''Get current V8 version'', task = return ()\<rparr>"

text \<open>The command that \<^verbatim>\<open>applyPatch\<close> issues for the \<open>i\<close>-th patch.\<close>

definition applyEvent :: "string \<Rightarrow> ctx \<Rightarrow> nat \<Rightarrow> event" where
  "applyEvent method s i =
     GitNode method [''-p1'', ''--3way'', ''--directory=deps/v8''] (Some (data (patches s ! i)))"

text \<open>
  A world in which applying the patch \<open>diff B\<close> fails, one in which every apply and
  mailbox-apply fails for a reason that is no merge conflict, and a context whose two patches are
  fresh, with an operator who types three lines.
\<close>

definition conflictWorld :: world where
  "conflictWorld =
     quietWorld\<lparr>outside := (\<lambda>history e.
        case e of
          GitNode cmd args input \<Rightarrow>
            (if input = Some ''diff B'' then Inl (CommandFailed ''error: patch failed'')
             else Inr [])
        | _ \<Rightarrow> Inr [])\<rparr>"

definition freshCtx :: ctx where
  "freshCtx =
     exampleCtx\<lparr>squash := False,
       patches := [examplePatchA, examplePatchB\<lparr>hadConflicts := False\<rparr>],
       inputs := [''done'', ''resolved'', ''later'']\<rparr>"

definition brokenWorld :: world where
  "brokenWorld =
     quietWorld\<lparr>outside := (\<lambda>history e.
        case e of
          GitNode cmd args input \<Rightarrow>
            (if cmd = ''am'' \<or> cmd = ''apply''
             then Inl (CommandFailed ''fatal: not a git repository'')
             else Inr [])
        | _ \<Rightarrow> Inr [])\<rparr>"

text \<open>The two files the version bumps read and write.\<close>

definition versionHPath :: "ctx \<Rightarrow> string" where
  "versionHPath s = nodeDir s @ ''/deps/v8/include/v8-version.h''"

definition commonGypiPath :: "world \<Rightarrow> ctx \<Rightarrow> string" where
  "commonGypiPath w s = pathJoin w (nodeDir s) ''common.gypi''"

text \<open>
  A version header and a build configuration, a world that serves them, and a world
  whose files hold neither pattern.
\<close>

definition exampleVersionH :: string where
  "exampleVersionH =
     ''#define V8_BUILD_NUMBER 7'' @ [nl] @ ''#define V8_PATCH_LEVEL 12'' @ [nl] @
     ''#define V8_IS_CANDIDATE_VERSION 0'' @ [nl]"

definition exampleGypi :: string where
  "exampleGypi =
     ''    # Reset this number to 0 on major V8 upgrades.'' @ [nl] @
     ''    '' @ [sq] @ ''v8_embedder_string'' @ [sq] @ '': '' @ [sq] @ ''-node.5'' @ [sq] @
     '','' @ [nl]"

definition filesWorld :: world where
  "filesWorld =
     quietWorld\<lparr>outside := (\<lambda>history e.
        case e of
          ReadFile path \<Rightarrow>
            (if path = ''/node/deps/v8/include/v8-version.h'' then Inr exampleVersionH
             else if path = ''/node/common.gypi'' then Inr exampleGypi
             else Inl (CommandFailed ''ENOENT''))
        | _ \<Rightarrow> Inr [])\<rparr>"

definition staleFilesWorld :: world where
  "staleFilesWorld =
     quietWorld\<lparr>outside := (\<lambda>history e.
        case e of
          ReadFile path \<Rightarrow> Inr ''#define V8_MINOR_VERSION 4''
        | _ \<Rightarrow> Inr [])\<rparr>"

text \<open>
  An upstream clone that resolves a reference by appending \<open>0123\<close>, whose fetches
  complete in an order other than the order of the requests, and a request for three
  references.
\<close>

definition upstreamWorld :: world where
  "upstreamWorld =
     quietWorld\<lparr>
       gitV8 := (\<lambda>args.
         if hd args = ''rev-parse'' then Inr (args ! 1 @ ''0123'' @ [nl])
         else if hd args = ''format-patch'' then Inr (''diff '' @ args ! 2)
         else Inr (''message of '' @ last args)),
       settleOrder := (\<lambda>k. if k < 2 then [2, 0, 1] else [1, 0])\<rparr>"

definition requestCtx :: ctx where
  "requestCtx = exampleCtx\<lparr>shas := [''bbbb'', ''aaaa'', ''cccc''], patches := []\<rparr>"

text \<open>The git subcommands run in the downstream repository, in the order of a trace.\<close>

fun nodeCommand :: "event \<Rightarrow> string option" where
  "nodeCommand (GitNode cmd args input) = Some cmd"
| "nodeCommand e = None"

definition nodeCommands :: "event list \<Rightarrow> string list" where
  "nodeCommands tr = List.map_filter nodeCommand tr"

text \<open>A request for two upstream commits, with the version bump switched off.\<close>

definition twoCommits :: ctx where
  "twoCommits =
     \<lparr>shas = [''bbbb'', ''aaaa''], squash = False, preserveOriginalAuthor = False,
      bump = Some False, nodeMajorVersion = 20, nodeDir = ''/node'', gpgSign = [''-S''],
      currentVersionPatch = 12, patches = [], trace = [], answers = [], inputs = []\<rparr>"

section \<open>Verified properties\<close>

subsection \<open>Commit titles\<close>

text \<open>
  Claim C4. With the action word \<open>backport\<close> when at least one patch of the list has
  \<open>hadConflicts\<close> set and \<open>cherry-pick\<close> otherwise, \<open>formatMessageTitle\<close> gives
  \<open>deps: V8: <action> <short>\<close> for one patch, \<open><short1> and <short2>\<close> for two,
  \<open><short1>, <short2> and <short3>\<close> for three, and \<open><N> commits\<close> for more than three.
\<close>

theorem formatMessageTitle_grammar:
  "let action = (if (\<exists>p \<in> set ps. hadConflicts p) then ''backport'' else ''cherry-pick'') in
     (\<forall>p. ps = [p] \<longrightarrow>
        formatMessageTitle short ps = ''deps: V8: '' @ action @ '' '' @ short (sha p)) \<and>
     (\<forall>p q. ps = [p, q] \<longrightarrow>
        formatMessageTitle short ps =
          ''deps: V8: '' @ action @ '' '' @ short (sha p) @ '' and '' @ short (sha q)) \<and>
     (\<forall>p q r. ps = [p, q, r] \<longrightarrow>
        formatMessageTitle short ps =
          ''deps: V8: '' @ action @ '' '' @ short (sha p) @ '', '' @ short (sha q) @
          '' and '' @ short (sha r)) \<and>
     (length ps > 3 \<longrightarrow>
        formatMessageTitle short ps =
          ''deps: V8: '' @ action @ '' '' @ numberToString (length ps) @ '' commits'')"
  by (auto simp: formatMessageTitle_def Let_def list_ex_iff)

theorem formatMessageTitle_grammar_witness:
  "formatMessageTitle (take 8) [examplePatchA] = ''deps: V8: cherry-pick aaaaaaaa'' \<and>
   formatMessageTitle (take 8) [examplePatchA, examplePatchB] =
     ''deps: V8: backport aaaaaaaa and bbbbbbbb'' \<and>
   formatMessageTitle (take 8) [examplePatchA, examplePatchC, examplePatchB] =
     ''deps: V8: backport aaaaaaaa, cccccccc and bbbbbbbb'' \<and>
   length [examplePatchA, examplePatchC, examplePatchA, examplePatchC] > 3 \<and>
   formatMessageTitle (take 8) [examplePatchA, examplePatchC, examplePatchA, examplePatchC] =
     ''deps: V8: cherry-pick 4 commits''"
  using formatMessageTitle_grammar [of "[examplePatchA]" "take 8"]
    formatMessageTitle_grammar [of "[examplePatchA, examplePatchB]" "take 8"]
    formatMessageTitle_grammar [of "[examplePatchA, examplePatchC, examplePatchB]" "take 8"]
    formatMessageTitle_grammar
      [of "[examplePatchA, examplePatchC, examplePatchA, examplePatchC]" "take 8"]
  by (simp add: Let_def examplePatchA_def examplePatchB_def examplePatchC_def
       numberToString.simps digit_char_def)

subsection \<open>Commit bodies\<close>

lemma splitOn_not_Nil: "splitOn c s \<noteq> []"
  by (induction s) (auto split: list.splits)

text \<open>
  Replacing every newline by a newline and the indent, after one leading indent, is
  indenting every line.
\<close>

lemma indent_replace:
  "pre @ replaceAllChar c (c # pre) m = joinWith [c] (map (\<lambda>l. pre @ l) (splitOn c m))"
proof (induction m)
  case Nil
  show ?case by (simp add: replaceAllChar_def)
next
  case (Cons x m)
  obtain l ls where sp: "splitOn c m = l # ls"
    using splitOn_not_Nil [of c m] by (cases "splitOn c m") auto
  have ih: "pre @ replaceAllChar c (c # pre) m = joinWith [c] ((pre @ l) # map (\<lambda>l. pre @ l) ls)"
    using Cons.IH sp by simp
  show ?case
  proof (cases "x = c")
    case True
    have "pre @ replaceAllChar c (c # pre) (x # m) =
          pre @ [c] @ (pre @ replaceAllChar c (c # pre) m)"
      using True by (simp add: replaceAllChar_def)
    also have "\<dots> = joinWith [c] (map (\<lambda>l. pre @ l) (splitOn c (x # m)))"
      using True sp ih by simp
    finally show ?thesis .
  next
    case False
    have "pre @ replaceAllChar c (c # pre) (x # m) = pre @ x # replaceAllChar c (c # pre) m"
      using False by (simp add: replaceAllChar_def)
    moreover have "joinWith [c] (map (\<lambda>l. pre @ l) (splitOn c (x # m))) =
          joinWith [c] ((pre @ x # l) # map (\<lambda>l. pre @ l) ls)"
      using False sp by simp
    moreover have "joinWith [c] ((pre @ x # l) # map (\<lambda>l. pre @ l) ls) =
          pre @ x # drop (length pre) (joinWith [c] ((pre @ l) # map (\<lambda>l. pre @ l) ls))"
      by (cases ls) auto
    ultimately show ?thesis using ih [symmetric] by simp
  qed
qed

lemma foldl_append_concat: "foldl (\<lambda>acc p. acc @ f p) a ps = a @ concat (map f ps)"
  by (induction ps arbitrary: a) auto

text \<open>
  Claim C5. The body of a patch is the header \<open>Original commit message:\<close>, a blank line,
  the original message with every line indented by four spaces (every newline of the
  message followed by the indent), a blank line, the \<open>Refs:\<close> line with the full SHA,
  and the trailer text as it is. With the prefix asked for, the line \<open>Backport <short>.\<close>
  or \<open>Cherry-pick <short>.\<close>, by the patch's own flag, comes first. The squashed commit
  of a list of other than one patch takes the prefixed bodies in order, each followed
  by a blank line, and that text is the second \<open>-m\<close> argument of its commit command.
\<close>

theorem formatMessageBody_layout:
  "formatMessageBody short p False trailers =
     ''Original commit message:'' @ [nl, nl] @ indentLines (message p) @ [nl, nl] @
     ''Refs: https://github.com/v8/v8/commit/'' @ sha p @
     (case trailers of None \<Rightarrow> [] | Some t \<Rightarrow> t) \<and>
   formatMessageBody short p True trailers =
     (if hadConflicts p then ''Backport'' else ''Cherry-pick'') @ '' '' @ short (sha p) @ ''.'' @
     [nl] @ formatMessageBody short p False trailers \<and>
   (length ps \<noteq> 1 \<longrightarrow>
      squashedMessageBody short ps =
        concat (map (\<lambda>q. formatMessageBody short q True None @ [nl, nl]) ps)) \<and>
   (\<forall>out. outside w (trace s) (GitNode ''add'' [''deps/v8''] None) = Inr out \<longrightarrow>
      trace (snd (task (commitSquashedBackport w) s)) =
        trace s @ [GitNode ''add'' [''deps/v8''] None,
                   GitNode ''commit'' [''-m'', formatMessageTitle (shortSha w) (patches s),
                                       ''-m'', squashedMessageBody (shortSha w) (patches s)] None])"
proof (intro conjI)
  show "formatMessageBody short p False trailers =
     ''Original commit message:'' @ [nl, nl] @ indentLines (message p) @ [nl, nl] @
     ''Refs: https://github.com/v8/v8/commit/'' @ sha p @
     (case trailers of None \<Rightarrow> [] | Some t \<Rightarrow> t)"
    using indent_replace [of "''    ''" nl "message p"]
    by (simp add: formatMessageBody_def indentLines_def Let_def)
  show "formatMessageBody short p True trailers =
     (if hadConflicts p then ''Backport'' else ''Cherry-pick'') @ '' '' @ short (sha p) @ ''.'' @
     [nl] @ formatMessageBody short p False trailers"
    by (simp add: formatMessageBody_def Let_def)
  show "length ps \<noteq> 1 \<longrightarrow>
      squashedMessageBody short ps =
        concat (map (\<lambda>q. formatMessageBody short q True None @ [nl, nl]) ps)"
    using foldl_append_concat [of "\<lambda>q. formatMessageBody short q True None @ [nl, nl]" "[]" ps]
    by (simp add: squashedMessageBody_def)
  show "\<forall>out. outside w (trace s) (GitNode ''add'' [''deps/v8''] None) = Inr out \<longrightarrow>
      trace (snd (task (commitSquashedBackport w) s)) =
        trace s @ [GitNode ''add'' [''deps/v8''] None,
                   GitNode ''commit'' [''-m'', formatMessageTitle (shortSha w) (patches s),
                                       ''-m'', squashedMessageBody (shortSha w) (patches s)] None]"
    by (auto simp: commitSquashedBackport_def Let_def await_def execGitNode_def perform_def
        return_def split: sum.splits)
qed

theorem formatMessageBody_layout_witness:
  "formatMessageBody (take 8) examplePatchA False None =
     ''Original commit message:\<newline>\<newline>    fix a\<newline>    more\<newline>    \<newline>\<newline>Refs: https://github.com/v8/v8/commit/aaaaaaaa1111'' \<and>
   formatMessageBody (take 8) examplePatchB True (Some ''\<newline>Co-authored-by: N <e@x>'') =
     ''Backport bbbbbbbb.\<newline>Original commit message:\<newline>\<newline>    fix b\<newline>\<newline>Refs: https://github.com/v8/v8/commit/bbbbbbbb2222\<newline>Co-authored-by: N <e@x>'' \<and>
   length [examplePatchA, examplePatchB] \<noteq> 1 \<and>
   squashedMessageBody (take 8) [examplePatchA, examplePatchB] =
     ''Cherry-pick aaaaaaaa.\<newline>Original commit message:\<newline>\<newline>    fix a\<newline>    more\<newline>    \<newline>\<newline>Refs: https://github.com/v8/v8/commit/aaaaaaaa1111\<newline>\<newline>Backport bbbbbbbb.\<newline>Original commit message:\<newline>\<newline>    fix b\<newline>\<newline>Refs: https://github.com/v8/v8/commit/bbbbbbbb2222\<newline>\<newline>'' \<and>
   outside quietWorld (trace exampleCtx) (GitNode ''add'' [''deps/v8''] None) = Inr [] \<and>
   trace (snd (task (commitSquashedBackport quietWorld) exampleCtx)) =
     [GitNode ''add'' [''deps/v8''] None,
      GitNode ''commit''
        [''-m'', ''deps: V8: backport aaaaaaaa and bbbbbbbb'',
         ''-m'', squashedMessageBody (take 8) [examplePatchA, examplePatchB]] None]"
proof -
  have a: "formatMessageBody (take 8) examplePatchA False None =
     ''Original commit message:\<newline>\<newline>    fix a\<newline>    more\<newline>    \<newline>\<newline>Refs: https://github.com/v8/v8/commit/aaaaaaaa1111''"
    using formatMessageBody_layout [of "take 8" examplePatchA None "[]" quietWorld exampleCtx]
    by (simp add: indentLines_def examplePatchA_def nl_def)
  have b: "formatMessageBody (take 8) examplePatchB False None =
     ''Original commit message:\<newline>\<newline>    fix b\<newline>\<newline>Refs: https://github.com/v8/v8/commit/bbbbbbbb2222''"
    using formatMessageBody_layout [of "take 8" examplePatchB None "[]" quietWorld exampleCtx]
    by (simp add: indentLines_def examplePatchB_def nl_def)
  have b': "formatMessageBody (take 8) examplePatchB False (Some ''\<newline>Co-authored-by: N <e@x>'') =
     ''Original commit message:\<newline>\<newline>    fix b\<newline>\<newline>Refs: https://github.com/v8/v8/commit/bbbbbbbb2222\<newline>Co-authored-by: N <e@x>''"
    using formatMessageBody_layout [of "take 8" examplePatchB "Some ''\<newline>Co-authored-by: N <e@x>''" "[]" quietWorld exampleCtx]
    by (simp add: indentLines_def examplePatchB_def nl_def)
  have pa: "formatMessageBody (take 8) examplePatchA True None =
      ''Cherry-pick aaaaaaaa.\<newline>'' @ formatMessageBody (take 8) examplePatchA False None"
    using formatMessageBody_layout [of "take 8" examplePatchA None "[]" quietWorld exampleCtx]
    by (simp add: examplePatchA_def nl_def)
  have pb: "formatMessageBody (take 8) examplePatchB True t =
      ''Backport bbbbbbbb.\<newline>'' @ formatMessageBody (take 8) examplePatchB False t" for t
    using formatMessageBody_layout [of "take 8" examplePatchB t "[]" quietWorld exampleCtx]
    by (simp add: examplePatchB_def nl_def)
  have sqb: "squashedMessageBody (take 8) [examplePatchA, examplePatchB] =
      formatMessageBody (take 8) examplePatchA True None @ [nl, nl] @
      formatMessageBody (take 8) examplePatchB True None @ [nl, nl]"
    using formatMessageBody_layout
      [of "take 8" examplePatchA None "[examplePatchA, examplePatchB]" quietWorld exampleCtx]
    by simp
  have t: "formatMessageTitle (take 8) [examplePatchA, examplePatchB] = ''deps: V8: backport aaaaaaaa and bbbbbbbb''"
    by (simp add: formatMessageTitle_def examplePatchA_def examplePatchB_def)
  have tr: "trace (snd (task (commitSquashedBackport quietWorld) exampleCtx)) =
     [GitNode ''add'' [''deps/v8''] None,
      GitNode ''commit''
        [''-m'', formatMessageTitle (take 8) [examplePatchA, examplePatchB],
         ''-m'', squashedMessageBody (take 8) [examplePatchA, examplePatchB]] None]"
    using formatMessageBody_layout
      [of "take 8" examplePatchA None "[examplePatchA, examplePatchB]" quietWorld exampleCtx]
    by (simp add: quietWorld_def exampleCtx_def)
  show ?thesis
    using a b' pa pb sqb b tr t by (simp add: nl_def quietWorld_def)
qed

subsection \<open>Strategy selection\<close>

lemma title_simps:
  "title (applyPatches w) = ''Apply patches to deps/v8''"
  "title (commitSquashedBackport w) = ''Commit backport''"
  "title (cherryPickV8Commits w) = ''Cherry-pick commit from V8 clone to deps/v8''"
  "title (applyAndCommitPatches w) = ''Apply and commit patches to deps/v8''"
  "title (incrementV8Version w) = ''Increment V8 version''"
  "title (incrementEmbedderVersion w) = ''Increment embedder version number''"
  by (simp_all add: applyPatches_def commitSquashedBackport_def cherryPickV8Commits_def
      applyAndCommitPatches_def incrementV8Version_def incrementEmbedderVersion_def)

lemma title_bumpTasks:
  "set (map title (bumpTasks w c)) \<subseteq> {''Increment V8 version'', ''Increment embedder version number''}"
  by (auto simp: bumpTasks_def title_simps)

lemma task_neq: "title a \<noteq> title b \<Longrightarrow> a \<noteq> b"
  by auto

lemma not_in_bumpTasks:
  "title t \<notin> {''Increment V8 version'', ''Increment embedder version number''} \<Longrightarrow> t \<notin> set (bumpTasks w c)"
  using title_bumpTasks [of w c] by auto

text \<open>
  Claim C2. With \<open>squash\<close> set the planner takes the squash sequence (apply all, the
  version bump if any, one commit), whatever \<open>preserveOriginalAuthor\<close> says; with
  \<open>squash\<close> unset and \<open>preserveOriginalAuthor\<close> set it takes the preserve-author task;
  otherwise the default apply-and-commit task. Of the three tasks that mark a strategy,
  the planned list (after the two tasks every plan starts with) holds exactly the one
  of the strategy chosen.
\<close>

theorem strategy_selection:
  "(squash options \<longrightarrow>
      todo w g options =
        [g, generatePatches w, applyPatches w] @ bumpTasks w options @ [commitSquashedBackport w]) \<and>
   (\<not> squash options \<and> preserveOriginalAuthor options \<longrightarrow>
      todo w g options = [g, generatePatches w, cherryPickV8Commits w]) \<and>
   (\<not> squash options \<and> \<not> preserveOriginalAuthor options \<longrightarrow>
      todo w g options = [g, generatePatches w, applyAndCommitPatches w]) \<and>
   (commitSquashedBackport w \<in> set (drop 2 (todo w g options))) = squash options \<and>
   (cherryPickV8Commits w \<in> set (drop 2 (todo w g options))) =
     (\<not> squash options \<and> preserveOriginalAuthor options) \<and>
   (applyAndCommitPatches w \<in> set (drop 2 (todo w g options))) =
     (\<not> squash options \<and> \<not> preserveOriginalAuthor options)"
proof -
  have d1: "commitSquashedBackport w \<noteq> cherryPickV8Commits w"
    and d2: "commitSquashedBackport w \<noteq> applyAndCommitPatches w"
    and d3: "cherryPickV8Commits w \<noteq> applyAndCommitPatches w"
    and d4: "cherryPickV8Commits w \<noteq> applyPatches w"
    and d5: "applyAndCommitPatches w \<noteq> applyPatches w"
    by (rule task_neq, simp add: title_simps)+
  have b1: "cherryPickV8Commits w \<notin> set (bumpTasks w options)"
    and b2: "applyAndCommitPatches w \<notin> set (bumpTasks w options)"
    by (rule not_in_bumpTasks, simp add: title_simps)+
  show ?thesis
    using d1 d2 d3 d4 d5 b1 b2 by (auto simp: todo_def)
qed

theorem strategy_selection_witness:
  "squash (exampleCtx\<lparr>preserveOriginalAuthor := True\<rparr>) \<and>
   map title (todo quietWorld noTask (exampleCtx\<lparr>preserveOriginalAuthor := True\<rparr>)) =
     [''Get current V8 version'', ''Generate patches'', ''Apply patches to deps/v8'',
      ''Increment embedder version number'', ''Commit backport''] \<and>
   \<not> squash (exampleCtx\<lparr>squash := False, preserveOriginalAuthor := True\<rparr>) \<and>
   preserveOriginalAuthor (exampleCtx\<lparr>squash := False, preserveOriginalAuthor := True\<rparr>) \<and>
   map title (todo quietWorld noTask (exampleCtx\<lparr>squash := False, preserveOriginalAuthor := True\<rparr>)) =
     [''Get current V8 version'', ''Generate patches'',
      ''Cherry-pick commit from V8 clone to deps/v8''] \<and>
   \<not> squash (exampleCtx\<lparr>squash := False\<rparr>) \<and>
   \<not> preserveOriginalAuthor (exampleCtx\<lparr>squash := False\<rparr>) \<and>
   map title (todo quietWorld noTask (exampleCtx\<lparr>squash := False\<rparr>)) =
     [''Get current V8 version'', ''Generate patches'', ''Apply and commit patches to deps/v8'']"
  using strategy_selection [of "exampleCtx\<lparr>preserveOriginalAuthor := True\<rparr>" quietWorld noTask]
    strategy_selection [of "exampleCtx\<lparr>squash := False, preserveOriginalAuthor := True\<rparr>" quietWorld noTask]
    strategy_selection [of "exampleCtx\<lparr>squash := False\<rparr>" quietWorld noTask]
  by (simp add: exampleCtx_def title_simps bumpTasks_def noTask_def generatePatches_def)

subsection \<open>Pre-flight check\<close>

text \<open>
  Claim C9. With more than one SHA and \<open>squash\<close>, \<open>checkOptions\<close> asks the operator to
  confirm, and that is all it does. When the operator declines it returns \<open>true\<close>, and
  the run ends there: the confirmation is its only event, so nothing was fetched,
  generated or applied. When the operator accepts, or \<open>squash\<close> is off, or at most one
  SHA is requested, it returns \<open>undefined\<close> and the run goes on with the planned tasks.
\<close>

theorem preflight_check:
  "(length (shas options) > 1 \<and> squash options \<longrightarrow>
      trace (snd (checkOptions options)) = trace options @ [Confirm squashWarning]) \<and>
   (\<forall>rest. length (shas options) > 1 \<and> squash options \<and> answers options = False # rest \<longrightarrow>
      checkOptions options =
        (Returned (Some True),
         options\<lparr>trace := trace options @ [Confirm squashWarning], answers := rest\<rparr>) \<and>
      backport w g options =
        (Returned (),
         options\<lparr>trace := trace options @ [Confirm squashWarning], answers := rest\<rparr>)) \<and>
   (\<forall>rest. length (shas options) > 1 \<and> squash options \<and> answers options = True # rest \<longrightarrow>
      checkOptions options =
        (Returned None,
         options\<lparr>trace := trace options @ [Confirm squashWarning], answers := rest\<rparr>) \<and>
      backport w g options =
        task (doBackport w g options)
          (options\<lparr>trace := trace options @ [Confirm squashWarning], answers := rest\<rparr>)) \<and>
   (\<not> (length (shas options) > 1 \<and> squash options) \<longrightarrow>
      checkOptions options = (Returned None, options) \<and>
      backport w g options = task (doBackport w g options) options)"
  by (auto simp: checkOptions_def backport_def await_def confirm_def return_def split: list.splits)

theorem preflight_check_witness:
  "length (shas (exampleCtx\<lparr>answers := [False]\<rparr>)) > 1 \<and>
   squash (exampleCtx\<lparr>answers := [False]\<rparr>) \<and>
   checkOptions (exampleCtx\<lparr>answers := [False]\<rparr>) =
     (Returned (Some True), exampleCtx\<lparr>trace := [Confirm squashWarning]\<rparr>) \<and>
   backport quietWorld noTask (exampleCtx\<lparr>answers := [False]\<rparr>) =
     (Returned (), exampleCtx\<lparr>trace := [Confirm squashWarning]\<rparr>) \<and>
   checkOptions (exampleCtx\<lparr>answers := [True]\<rparr>) =
     (Returned None, exampleCtx\<lparr>trace := [Confirm squashWarning]\<rparr>) \<and>
   backport quietWorld noTask (exampleCtx\<lparr>answers := [True]\<rparr>) =
     task (doBackport quietWorld noTask (exampleCtx\<lparr>answers := [True]\<rparr>))
       (exampleCtx\<lparr>trace := [Confirm squashWarning]\<rparr>) \<and>
   \<not> (length (shas (exampleCtx\<lparr>squash := False\<rparr>)) > 1 \<and> squash (exampleCtx\<lparr>squash := False\<rparr>)) \<and>
   checkOptions (exampleCtx\<lparr>squash := False\<rparr>) = (Returned None, exampleCtx\<lparr>squash := False\<rparr>) \<and>
   \<not> (length (shas (exampleCtx\<lparr>shas := [''aaaaaaaa'']\<rparr>)) > 1 \<and> squash (exampleCtx\<lparr>shas := [''aaaaaaaa'']\<rparr>)) \<and>
   checkOptions (exampleCtx\<lparr>shas := [''aaaaaaaa'']\<rparr>) =
     (Returned None, exampleCtx\<lparr>shas := [''aaaaaaaa'']\<rparr>)"
  using preflight_check [of "exampleCtx\<lparr>answers := [False]\<rparr>" quietWorld noTask]
    preflight_check [of "exampleCtx\<lparr>answers := [True]\<rparr>" quietWorld noTask]
    preflight_check [of "exampleCtx\<lparr>squash := False\<rparr>" quietWorld noTask]
    preflight_check [of "exampleCtx\<lparr>shas := [''aaaaaaaa'']\<rparr>" quietWorld noTask]
  by (simp add: exampleCtx_def)

subsection \<open>Applying a patch\<close>

lemma prompt_loop_accepts:
  "\<forall>x \<in> set rejected. \<not> ok x \<Longrightarrow> ok v \<Longrightarrow> prompt_loop ok (rejected @ v # rest) = Some (v, rest)"
  by (induction rejected) auto

lemma prompt_loop_blocks: "\<forall>x \<in> set vs. \<not> ok x \<Longrightarrow> prompt_loop ok vs = None"
  by (induction vs) auto

lemma prompt_loop_Some: "list_ex ok vs \<Longrightarrow> \<exists>v rest. prompt_loop ok vs = Some (v, rest)"
  by (induction vs) auto

lemma applyPatch_clean:
  "outside w (trace s) (applyEvent method s i) = Inr out \<Longrightarrow>
   applyPatch w i method s = (Returned None, s\<lparr>trace := trace s @ [applyEvent method s i]\<rparr>)"
  by (simp add: applyPatch_def applyEvent_def execGitNode_def perform_def)

lemma applyPatch_failed:
  "outside w (trace s) (applyEvent method s i) = Inl err \<Longrightarrow>
   applyPatch w i method s =
     await (prompt_run resolveMessage (validate w)) (\<lambda>v. return (Some v))
       (setHadConflicts i (s\<lparr>trace := trace s @ [applyEvent method s i]\<rparr>))"
  by (simp add: applyPatch_def applyEvent_def execGitNode_def perform_def)

lemma asciiUpperChar_cases:
  "asciiUpperChar c = CHR ''R'' \<longleftrightarrow> c = CHR ''R'' \<or> c = CHR ''r''"
  "asciiUpperChar c = CHR ''E'' \<longleftrightarrow> c = CHR ''E'' \<or> c = CHR ''e''"
  "asciiUpperChar c = CHR ''S'' \<longleftrightarrow> c = CHR ''S'' \<or> c = CHR ''s''"
  "asciiUpperChar c = CHR ''O'' \<longleftrightarrow> c = CHR ''O'' \<or> c = CHR ''o''"
  "asciiUpperChar c = CHR ''L'' \<longleftrightarrow> c = CHR ''L'' \<or> c = CHR ''l''"
  "asciiUpperChar c = CHR ''V'' \<longleftrightarrow> c = CHR ''V'' \<or> c = CHR ''v''"
  "asciiUpperChar c = CHR ''D'' \<longleftrightarrow> c = CHR ''D'' \<or> c = CHR ''d''"
  by (simp_all add: asciiUpperChar_def)

lemma validate_ascii:
  assumes "\<forall>v. list_all isAscii v \<longrightarrow> toUpperCase w v = map asciiUpperChar v"
    and "list_all isAscii v"
  shows "validate w v \<longleftrightarrow>
     list_all2 (\<lambda>c (u, l). c = u \<or> c = l) v (zip ''RESOLVED'' ''resolved'')"
proof -
  have "validate w v \<longleftrightarrow> map asciiUpperChar v = ''RESOLVED''"
    using assms by (simp add: validate_def)
  also have "\<dots> \<longleftrightarrow>
      list_all2 (\<lambda>c (u, l). c = u \<or> c = l) v (zip ''RESOLVED'' ''resolved'')"
    by (simp add: map_eq_Cons_conv list_all2_Cons2 asciiUpperChar_cases)
  finally show ?thesis .
qed

lemma newListr_step:
  "m s = (Returned r, s') \<Longrightarrow>
   newListr (\<lparr>title = t, task = discard m\<rparr> # later) s = newListr later s'"
  by (simp add: discard_def await_def return_def)

lemma prompt_run_trace: "trace (snd (prompt_run msg ok s)) = trace s @ [Prompt msg]"
  by (simp add: prompt_run_def split: option.splits)

lemma prompt_run_patches: "patches (snd (prompt_run msg ok s)) = patches s"
  by (simp add: prompt_run_def split: option.splits)

lemma prompt_run_not_Thrown: "fst (prompt_run msg ok s) \<noteq> Thrown e"
  by (simp add: prompt_run_def split: option.splits)

lemma await_return_fst:
  "fst (await m (\<lambda>v. return (f v)) s) = mapReturned f (fst (m s))"
  by (simp add: await_def return_def mapReturned_def split: prod.splits outcome.splits)

lemma await_return_snd:
  "snd (await m (\<lambda>v. return (f v)) s) = snd (m s)"
  by (simp add: await_def return_def split: prod.splits outcome.splits)

text \<open>
  Claim C3. When the apply command of a patch succeeds, \<open>applyPatch\<close> returns with the
  context unchanged but for the command in the trace: the patch's flag is as before,
  no prompt is issued and no line of the operator is read. When the command fails, the
  patch's \<open>hadConflicts\<close> is set and one prompt is issued; the lines the operator types
  are refused up to the first whose upper-case form is \<open>RESOLVED\<close>, \<open>applyPatch\<close> returns
  that line, and the task runner goes on with the next step; while no such line is
  typed the run is blocked, and in no case does \<open>applyPatch\<close> throw. Where upper-casing
  an ASCII line changes its lower-case letters only, the ASCII lines accepted are those
  that spell the token, each character its upper-case or its lower-case letter.
\<close>

theorem applyPatch_conflict_handling:
  assumes "i < length (patches s)"
  shows
    "(\<forall>out. outside w (trace s) (applyEvent method s i) = Inr out \<longrightarrow>
        applyPatch w i method s = (Returned None, s\<lparr>trace := trace s @ [applyEvent method s i]\<rparr>)) \<and>
     (\<forall>err. outside w (trace s) (applyEvent method s i) = Inl err \<longrightarrow>
        hadConflicts (patches (snd (applyPatch w i method s)) ! i) \<and>
        trace (snd (applyPatch w i method s)) =
          trace s @ [applyEvent method s i, Prompt resolveMessage] \<and>
        (\<forall>rejected v rest.
           inputs s = rejected @ v # rest \<and> (\<forall>x \<in> set rejected. \<not> validate w x) \<and> validate w v \<longrightarrow>
           fst (applyPatch w i method s) = Returned (Some v) \<and>
           inputs (snd (applyPatch w i method s)) = rest) \<and>
        ((\<forall>x \<in> set (inputs s). \<not> validate w x) \<longrightarrow> fst (applyPatch w i method s) = Blocked) \<and>
        (\<forall>e. fst (applyPatch w i method s) \<noteq> Thrown e)) \<and>
     (\<forall>v. validate w v = (toUpperCase w v = ''RESOLVED'')) \<and>
     ((\<forall>v. list_all isAscii v \<longrightarrow> toUpperCase w v = map asciiUpperChar v) \<longrightarrow>
      (\<forall>v. list_all isAscii v \<longrightarrow>
         validate w v =
           list_all2 (\<lambda>c (u, l). c = u \<or> c = l) v (zip ''RESOLVED'' ''resolved''))) \<and>
     (\<forall>r s' t later. applyPatch w i method s = (Returned r, s') \<longrightarrow>
        newListr (\<lparr>title = t, task = discard (applyPatch w i method)\<rparr> # later) s =
        newListr later s')"
proof (intro conjI allI impI)
  fix out
  assume "outside w (trace s) (applyEvent method s i) = Inr out"
  then show "applyPatch w i method s =
      (Returned None, s\<lparr>trace := trace s @ [applyEvent method s i]\<rparr>)"
    by (rule applyPatch_clean)
next
  fix err
  assume failed: "outside w (trace s) (applyEvent method s i) = Inl err"
  let ?s1 = "setHadConflicts i (s\<lparr>trace := trace s @ [applyEvent method s i]\<rparr>)"
  have eq: "applyPatch w i method s =
      await (prompt_run resolveMessage (validate w)) (\<lambda>v. return (Some v)) ?s1"
    using failed by (rule applyPatch_failed)
  have s1: "hadConflicts (patches ?s1 ! i)" "trace ?s1 = trace s @ [applyEvent method s i]"
    "inputs ?s1 = inputs s"
    using assms by (simp_all add: setHadConflicts_def)
  show "hadConflicts (patches (snd (applyPatch w i method s)) ! i)"
    using s1 by (simp add: eq await_return_snd prompt_run_patches)
  show "trace (snd (applyPatch w i method s)) =
      trace s @ [applyEvent method s i, Prompt resolveMessage]"
    using s1 by (simp add: eq await_return_snd prompt_run_trace)
  show "fst (applyPatch w i method s) = Blocked" if "\<forall>x \<in> set (inputs s). \<not> validate w x"
    using that s1 prompt_loop_blocks [of "inputs s" "validate w"]
    by (simp add: eq await_return_fst prompt_run_def mapReturned_def)
  show "fst (applyPatch w i method s) \<noteq> Thrown e" for e
    using prompt_run_not_Thrown [of resolveMessage "validate w" ?s1]
    by (simp add: eq await_return_fst mapReturned_def split: outcome.splits)
  show "fst (applyPatch w i method s) = Returned (Some v)"
    if "inputs s = rejected @ v # rest \<and> (\<forall>x \<in> set rejected. \<not> validate w x) \<and> validate w v"
    for rejected v rest
    using that s1 prompt_loop_accepts [of rejected "validate w" v rest]
    by (simp add: eq await_return_fst prompt_run_def mapReturned_def)
  show "inputs (snd (applyPatch w i method s)) = rest"
    if "inputs s = rejected @ v # rest \<and> (\<forall>x \<in> set rejected. \<not> validate w x) \<and> validate w v"
    for rejected v rest
    using that s1 prompt_loop_accepts [of rejected "validate w" v rest]
    by (simp add: eq await_return_snd prompt_run_def)
next
  fix v
  show "validate w v = (toUpperCase w v = ''RESOLVED'')"
    by (simp add: validate_def)
next
  fix v
  assume "\<forall>v. list_all isAscii v \<longrightarrow> toUpperCase w v = map asciiUpperChar v"
    and "list_all isAscii v"
  then show "validate w v =
      list_all2 (\<lambda>c (u, l). c = u \<or> c = l) v (zip ''RESOLVED'' ''resolved'')"
    by (rule validate_ascii)
next
  fix r s' t later
  assume "applyPatch w i method s = (Returned r, s')"
  then show "newListr (\<lparr>title = t, task = discard (applyPatch w i method)\<rparr> # later) s =
      newListr later s'"
    by (rule newListr_step [of "applyPatch w i method"])
qed

theorem applyPatch_conflict_handling_witness:
  "0 < length (patches freshCtx) \<and>
   outside conflictWorld (trace freshCtx) (applyEvent ''apply'' freshCtx 0) = Inr [] \<and>
   applyPatch conflictWorld 0 ''apply'' freshCtx =
     (Returned None,
      freshCtx\<lparr>trace := [GitNode ''apply'' [''-p1'', ''--3way'', ''--directory=deps/v8'']
                            (Some ''diff A'')]\<rparr>) \<and>
   1 < length (patches freshCtx) \<and>
   outside conflictWorld (trace freshCtx) (applyEvent ''apply'' freshCtx 1) =
     Inl (CommandFailed ''error: patch failed'') \<and>
   hadConflicts (patches (snd (applyPatch conflictWorld 1 ''apply'' freshCtx)) ! 1) \<and>
   trace (snd (applyPatch conflictWorld 1 ''apply'' freshCtx)) =
     [GitNode ''apply'' [''-p1'', ''--3way'', ''--directory=deps/v8''] (Some ''diff B''),
      Prompt resolveMessage] \<and>
   inputs freshCtx = [''done''] @ ''resolved'' # [''later''] \<and>
   \<not> validate conflictWorld ''done'' \<and> validate conflictWorld ''resolved'' \<and>
   fst (applyPatch conflictWorld 1 ''apply'' freshCtx) = Returned (Some ''resolved'') \<and>
   inputs (snd (applyPatch conflictWorld 1 ''apply'' freshCtx)) = [''later''] \<and>
   toUpperCase conflictWorld = map asciiUpperChar \<and>
   list_all isAscii ''ReSolved'' \<and> validate conflictWorld ''ReSolved'' \<and>
   list_all isAscii ''RESOLVED '' \<and> \<not> validate conflictWorld ''RESOLVED '' \<and>
   inputs (freshCtx\<lparr>inputs := [''done'', ''yes'']\<rparr>) = [''done'', ''yes''] \<and>
   \<not> validate conflictWorld ''yes'' \<and>
   fst (applyPatch conflictWorld 1 ''apply'' (freshCtx\<lparr>inputs := [''done'', ''yes'']\<rparr>)) = Blocked \<and>
   newListr [\<lparr>title = ''Apply patch'', task = discard (applyPatch conflictWorld 0 ''apply'')\<rparr>,
             commitPatch conflictWorld 0] freshCtx =
     newListr [commitPatch conflictWorld 0]
       (freshCtx\<lparr>trace := [GitNode ''apply'' [''-p1'', ''--3way'', ''--directory=deps/v8'']
                             (Some ''diff A'')]\<rparr>)"
proof -
  have len0: "0 < length (patches freshCtx)" and len1: "1 < length (patches freshCtx)"
    by (simp_all add: freshCtx_def exampleCtx_def)
  have ev0: "applyEvent ''apply'' freshCtx 0 =
      GitNode ''apply'' [''-p1'', ''--3way'', ''--directory=deps/v8''] (Some ''diff A'')"
    and ev1: "applyEvent ''apply'' freshCtx 1 =
      GitNode ''apply'' [''-p1'', ''--3way'', ''--directory=deps/v8''] (Some ''diff B'')"
    by (simp_all add: applyEvent_def freshCtx_def exampleCtx_def examplePatchA_def
        examplePatchB_def)
  have ok: "outside conflictWorld (trace freshCtx) (applyEvent ''apply'' freshCtx 0) = Inr []"
    and failed: "outside conflictWorld (trace freshCtx) (applyEvent ''apply'' freshCtx 1) =
      Inl (CommandFailed ''error: patch failed'')"
    unfolding ev0 ev1 by (simp_all add: conflictWorld_def quietWorld_def)
  have inp: "inputs freshCtx = [''done''] @ ''resolved'' # [''later'']"
    by (simp add: freshCtx_def exampleCtx_def)
  have val: "\<not> validate conflictWorld ''done''" "validate conflictWorld ''resolved''"
    by (simp_all add: validate_def conflictWorld_def quietWorld_def asciiUpperChar_def)
  note clean = applyPatch_conflict_handling [OF len0, of conflictWorld "''apply''"]
  note conflict = applyPatch_conflict_handling [OF len1, of conflictWorld "''apply''"]
  have r0: "applyPatch conflictWorld 0 ''apply'' freshCtx =
      (Returned None, freshCtx\<lparr>trace := trace freshCtx @ [applyEvent ''apply'' freshCtx 0]\<rparr>)"
    using clean ok by blast
  have r1: "hadConflicts (patches (snd (applyPatch conflictWorld 1 ''apply'' freshCtx)) ! 1)"
    "trace (snd (applyPatch conflictWorld 1 ''apply'' freshCtx)) =
       trace freshCtx @ [applyEvent ''apply'' freshCtx 1, Prompt resolveMessage]"
    "\<forall>rejected v rest.
       inputs freshCtx = rejected @ v # rest \<and> (\<forall>x \<in> set rejected. \<not> validate conflictWorld x) \<and> validate conflictWorld v \<longrightarrow>
       fst (applyPatch conflictWorld 1 ''apply'' freshCtx) = Returned (Some v) \<and>
       inputs (snd (applyPatch conflictWorld 1 ''apply'' freshCtx)) = rest"
    using conflict failed by blast+
  have r2: "fst (applyPatch conflictWorld 1 ''apply'' freshCtx) = Returned (Some ''resolved'') \<and>
       inputs (snd (applyPatch conflictWorld 1 ''apply'' freshCtx)) = [''later'']"
    using r1(3) [rule_format, of "[''done'']" "''resolved''" "[''later'']"] inp val by simp
  have tr0: "trace freshCtx = []"
    by (simp add: freshCtx_def exampleCtx_def)
  have c3: "applyPatch conflictWorld 0 ''apply'' freshCtx =
     (Returned None,
      freshCtx\<lparr>trace := [GitNode ''apply'' [''-p1'', ''--3way'', ''--directory=deps/v8'']
                            (Some ''diff A'')]\<rparr>)"
    using r0 by (simp add: ev0 tr0)
  have c7: "trace (snd (applyPatch conflictWorld 1 ''apply'' freshCtx)) =
     [GitNode ''apply'' [''-p1'', ''--3way'', ''--directory=deps/v8''] (Some ''diff B''),
      Prompt resolveMessage]"
    using r1(2) unfolding ev1 tr0 by simp
  let ?mute = "freshCtx\<lparr>inputs := [''done'', ''yes'']\<rparr>"
  have mute: "\<forall>x \<in> set (inputs ?mute). \<not> validate conflictWorld x"
    by (simp add: validate_def conflictWorld_def quietWorld_def asciiUpperChar_def)
  have len1': "1 < length (patches ?mute)"
    using len1 by simp
  have failed': "outside conflictWorld (trace ?mute) (applyEvent ''apply'' ?mute 1) =
      Inl (CommandFailed ''error: patch failed'')"
    using failed by (simp add: applyEvent_def)
  have blocked: "fst (applyPatch conflictWorld 1 ''apply'' ?mute) = Blocked"
    using applyPatch_conflict_handling [OF len1', of conflictWorld "''apply''"] failed' mute
    by blast
  have step: "newListr [\<lparr>title = ''Apply patch'',
                       task = discard (applyPatch conflictWorld 0 ''apply'')\<rparr>,
             commitPatch conflictWorld 0] freshCtx =
     newListr [commitPatch conflictWorld 0]
       (freshCtx\<lparr>trace := [GitNode ''apply'' [''-p1'', ''--3way'', ''--directory=deps/v8'']
                             (Some ''diff A'')]\<rparr>)"
    using clean c3 by blast
  have inp': "inputs ?mute = [''done'', ''yes'']" and val': "\<not> validate conflictWorld ''yes''"
    by (simp_all add: validate_def conflictWorld_def quietWorld_def asciiUpperChar_def)
  have up: "toUpperCase conflictWorld = map asciiUpperChar"
    by (simp add: conflictWorld_def quietWorld_def)
  then have up': "\<forall>v. list_all isAscii v \<longrightarrow> toUpperCase conflictWorld v = map asciiUpperChar v"
    by simp
  have asc: "list_all isAscii ''ReSolved''" "list_all isAscii ''RESOLVED ''"
    by (simp_all add: isAscii_def)
  have spell: "\<forall>v. list_all isAscii v \<longrightarrow>
      validate conflictWorld v =
        list_all2 (\<lambda>c (u, l). c = u \<or> c = l) v (zip ''RESOLVED'' ''resolved'')"
    using clean up' by blast
  have mixed: "validate conflictWorld ''ReSolved''"
    using spell [rule_format, OF asc(1)] by simp
  have padded: "\<not> validate conflictWorld ''RESOLVED ''"
    using spell [rule_format, OF asc(2)] by simp
  show ?thesis
    using len0 len1 ok failed c3 r1(1) c7 inp val r2 inp' val' blocked step up asc mixed padded
    by blast
qed

lemma prompt_loop_valid: "prompt_loop ok vs = Some (v, rest) \<Longrightarrow> ok v"
  by (induction vs) (auto split: if_splits)

lemma prompt_run_Returned:
  "list_ex ok (inputs s) \<Longrightarrow> \<exists>v. ok v \<and> fst (prompt_run msg ok s) = Returned v"
  using prompt_loop_Some [of ok "inputs s"] prompt_loop_valid [of ok "inputs s"]
  by (fastforce simp: prompt_run_def)

text \<open>
  Claim C10. Whatever error the apply or mailbox-apply command throws, \<open>applyPatch\<close>
  continues as the same computation, in which the error does not occur: the flag is
  set and the prompt is run. It never throws; once the operator has typed an accepted
  line it returns, and the per-patch task list (apply then bump then commit, or
  mailbox-apply then bump then amend) and the loop of the squash strategy go on with
  their next step.
\<close>

theorem applyPatch_discards_error:
  assumes "i < length (patches s)"
    and "outside w (trace s) (applyEvent method s i) = Inl err"
  shows
    "applyPatch w i method s =
       await (prompt_run resolveMessage (validate w)) (\<lambda>v. return (Some v))
         (setHadConflicts i (s\<lparr>trace := trace s @ [applyEvent method s i]\<rparr>)) \<and>
     (\<forall>e. fst (applyPatch w i method s) \<noteq> Thrown e) \<and>
     hadConflicts (patches (snd (applyPatch w i method s)) ! i) \<and>
     (list_ex (validate w) (inputs s) \<longrightarrow>
        (\<exists>v. validate w v \<and> fst (applyPatch w i method s) = Returned (Some v)) \<and>
        (method = ''apply'' \<longrightarrow>
           task (applyPatchTask w c i) s =
             newListr (bumpTasks w s @ [commitPatch w i]) (snd (applyPatch w i method s)) \<and>
           applyPatchesLoop w (i # rest) s =
             applyPatchesLoop w rest (snd (applyPatch w i method s))) \<and>
        (method = ''am'' \<longrightarrow>
           task (cherryPickV8CommitTask w c i) s =
             newListr (bumpTasks w s @ [amendHEAD w i]) (snd (applyPatch w i method s))))"
proof -
  let ?s1 = "setHadConflicts i (s\<lparr>trace := trace s @ [applyEvent method s i]\<rparr>)"
  have eq: "applyPatch w i method s =
      await (prompt_run resolveMessage (validate w)) (\<lambda>v. return (Some v)) ?s1"
    using assms(2) by (rule applyPatch_failed)
  have s1: "hadConflicts (patches ?s1 ! i)" "inputs ?s1 = inputs s"
    using assms(1) by (simp_all add: setHadConflicts_def)
  have not_thrown: "fst (applyPatch w i method s) \<noteq> Thrown e" for e
    using prompt_run_not_Thrown [of resolveMessage "validate w" ?s1]
    by (simp add: eq await_return_fst mapReturned_def split: outcome.splits)
  have flag: "hadConflicts (patches (snd (applyPatch w i method s)) ! i)"
    using s1 by (simp add: eq await_return_snd prompt_run_patches)
  have returns: "\<exists>v. validate w v \<and> fst (applyPatch w i method s) = Returned (Some v)"
    if "list_ex (validate w) (inputs s)"
    using prompt_run_Returned [of "validate w" ?s1 resolveMessage] that s1
    by (auto simp: eq await_return_fst mapReturned_def)
  have proceeds: "newListr (\<lparr>title = t, task = discard (applyPatch w i method)\<rparr> # later) s =
      newListr later (snd (applyPatch w i method s))"
    if lv: "list_ex (validate w) (inputs s)" for t later
  proof -
    obtain v where "fst (applyPatch w i method s) = Returned (Some v)"
      using returns lv by blast
    then have "applyPatch w i method s = (Returned (Some v), snd (applyPatch w i method s))"
      by (simp add: prod_eq_iff)
    then show ?thesis
      by (rule newListr_step [of "applyPatch w i method"])
  qed
  have loop: "applyPatchesLoop w (i # rest) s =
      applyPatchesLoop w rest (snd (applyPatch w i ''apply'' s))"
    if lv: "list_ex (validate w) (inputs s)" and m: "method = ''apply''"
  proof -
    obtain v where "fst (applyPatch w i ''apply'' s) = Returned (Some v)"
      using returns lv m by blast
    then show ?thesis
      by (cases "applyPatch w i ''apply'' s") (simp add: await_def)
  qed
  show ?thesis
  proof (intro conjI impI)
    show "applyPatch w i method s =
        await (prompt_run resolveMessage (validate w)) (\<lambda>v. return (Some v)) ?s1"
      by (rule eq)
    show "\<forall>e. fst (applyPatch w i method s) \<noteq> Thrown e"
      using not_thrown by blast
    show "hadConflicts (patches (snd (applyPatch w i method s)) ! i)"
      by (rule flag)
    show "\<exists>v. validate w v \<and> fst (applyPatch w i method s) = Returned (Some v)"
      if "list_ex (validate w) (inputs s)"
      using that by (rule returns)
    show "task (applyPatchTask w c i) s =
        newListr (bumpTasks w s @ [commitPatch w i]) (snd (applyPatch w i method s))"
      if lv: "list_ex (validate w) (inputs s)" and m: "method = ''apply''"
      using proceeds [OF lv, of "''Apply patch''" "bumpTasks w s @ [commitPatch w i]"]
      unfolding m by (simp add: applyPatchTask_def del: newListr.simps)
    show "applyPatchesLoop w (i # rest) s =
        applyPatchesLoop w rest (snd (applyPatch w i method s))"
      if lv: "list_ex (validate w) (inputs s)" and m: "method = ''apply''"
      using loop [OF lv m] unfolding m .
    show "task (cherryPickV8CommitTask w c i) s =
        newListr (bumpTasks w s @ [amendHEAD w i]) (snd (applyPatch w i method s))"
      if lv: "list_ex (validate w) (inputs s)" and m: "method = ''am''"
      using proceeds [OF lv, of "''Cherry-pick''" "bumpTasks w s @ [amendHEAD w i]"]
      unfolding m by (simp add: cherryPickV8CommitTask_def del: newListr.simps)
  qed
qed

theorem applyPatch_discards_error_witness:
  "0 < length (patches freshCtx) \<and>
   outside brokenWorld (trace freshCtx) (applyEvent ''am'' freshCtx 0) =
     Inl (CommandFailed ''fatal: not a git repository'') \<and>
   list_ex (validate brokenWorld) (inputs freshCtx) \<and>
   fst (applyPatch brokenWorld 0 ''am'' freshCtx) = Returned (Some ''resolved'') \<and>
   hadConflicts (patches (snd (applyPatch brokenWorld 0 ''am'' freshCtx)) ! 0) \<and>
   task (cherryPickV8CommitTask brokenWorld freshCtx 0) freshCtx =
     newListr (bumpTasks brokenWorld freshCtx @ [amendHEAD brokenWorld 0])
       (snd (applyPatch brokenWorld 0 ''am'' freshCtx)) \<and>
   outside brokenWorld (trace freshCtx) (applyEvent ''apply'' freshCtx 0) =
     Inl (CommandFailed ''fatal: not a git repository'') \<and>
   task (applyPatchTask brokenWorld freshCtx 0) freshCtx =
     newListr (bumpTasks brokenWorld freshCtx @ [commitPatch brokenWorld 0])
       (snd (applyPatch brokenWorld 0 ''apply'' freshCtx)) \<and>
   applyPatchesLoop brokenWorld [0, 1] freshCtx =
     applyPatchesLoop brokenWorld [1] (snd (applyPatch brokenWorld 0 ''apply'' freshCtx))"
proof -
  have len: "0 < length (patches freshCtx)"
    by (simp add: freshCtx_def exampleCtx_def)
  have failed: "outside brokenWorld (trace freshCtx) (applyEvent ''am'' freshCtx 0) =
      Inl (CommandFailed ''fatal: not a git repository'')"
    by (simp add: brokenWorld_def quietWorld_def applyEvent_def)
  have val: "\<not> validate brokenWorld ''done''" "validate brokenWorld ''resolved''"
    by (simp_all add: validate_def brokenWorld_def quietWorld_def asciiUpperChar_def)
  have lv: "list_ex (validate brokenWorld) (inputs freshCtx)"
    using val by (simp add: freshCtx_def exampleCtx_def)
  note t = applyPatch_discards_error
    [OF len failed, where c = freshCtx and rest = "[]"]
  have r: "fst (applyPatch brokenWorld 0 ''am'' freshCtx) = Returned (Some ''resolved'')"
    using t val
    by (simp add: await_def prompt_run_def setHadConflicts_def return_def freshCtx_def
        exampleCtx_def)
  have failed': "outside brokenWorld (trace freshCtx) (applyEvent ''apply'' freshCtx 0) =
      Inl (CommandFailed ''fatal: not a git repository'')"
    by (simp add: brokenWorld_def quietWorld_def applyEvent_def)
  note t' = applyPatch_discards_error
    [OF len failed', where c = freshCtx and rest = "[1]"]
  show ?thesis
    using len failed failed' lv r t t' by blast
qed

subsection \<open>Version bumps\<close>

lemma strip_prefix_Some: "strip_prefix p s = Some r \<Longrightarrow> s = p @ r"
  by (induction p s rule: strip_prefix.induct) (auto split: if_splits)

lemma match_here_Some:
  assumes "match_here re s = Some (ds, post)"
  shows "s = fst re @ ds @ snd re @ post \<and> ds \<noteq> [] \<and> list_all is_digit ds"
proof -
  obtain r where r: "strip_prefix (fst re) s = Some r"
    using assms by (auto simp: match_here_def split: option.splits)
  have ds: "ds = takeWhile is_digit r" "ds \<noteq> []"
    and post: "strip_prefix (snd re) (dropWhile is_digit r) = Some post"
    using assms r by (auto simp: match_here_def Let_def split: option.splits if_splits)
  have "r = ds @ dropWhile is_digit r"
    using ds(1) by simp
  moreover have "dropWhile is_digit r = snd re @ post"
    using post by (rule strip_prefix_Some)
  moreover have "s = fst re @ r"
    using r by (rule strip_prefix_Some)
  moreover have "list_all is_digit ds"
    unfolding ds(1) list_all_iff using set_takeWhileD by metis
  ultimately show ?thesis
    using ds(2) by simp
qed

lemma regex_search_Some:
  "regex_search re pre s = Some (p, ds, post) \<Longrightarrow>
   \<exists>mid. p = pre @ mid \<and> s = mid @ fst re @ ds @ snd re @ post \<and> ds \<noteq> [] \<and> list_all is_digit ds"
proof (induction re pre s rule: regex_search.induct)
  case (1 re pre)
  then show ?case
    using match_here_Some [of re "[]" ds post] by (auto split: option.splits)
next
  case (2 re pre c cs)
  show ?case
  proof (cases "match_here re (c # cs)")
    case None
    then obtain mid where "p = (pre @ [c]) @ mid"
      "cs = mid @ fst re @ ds @ snd re @ post" "ds \<noteq> []" "list_all is_digit ds"
      using 2 by auto
    then show ?thesis
      by (intro exI [of _ "c # mid"]) simp
  next
    case (Some m)
    then have "match_here re (c # cs) = Some (ds, post)" "p = pre"
      using 2(2) by (auto split: prod.splits)
    then show ?thesis
      using match_here_Some [of re "c # cs" ds post] by (intro exI [of _ "[]"]) simp
  qed
qed

lemma regex_exec_Some:
  "regex_exec re s = Some (pre, ds, post) \<Longrightarrow>
   s = pre @ fst re @ ds @ snd re @ post \<and> ds \<noteq> [] \<and> list_all is_digit ds"
  using regex_search_Some [of re "[]" s pre ds post] by (auto simp: regex_exec_def)

lemma digit_val_digit_char: "d < 10 \<Longrightarrow> digit_val (digit_char d) = d"
  unfolding digit_val_def digit_char_def
  by (auto simp: less_Suc_eq numeral_eq_Suc)

lemma parseInt_snoc: "parseInt (ds @ [c]) = 10 * parseInt ds + digit_val c"
  by (simp add: parseInt_def)

lemma parseInt_numberToString: "parseInt (numberToString n) = n"
proof (induction n rule: numberToString.induct)
  case (1 n)
  show ?case
  proof (cases "n < 10")
    case True
    then show ?thesis
      by (simp add: numberToString.simps [of n] parseInt_def digit_val_digit_char)
  next
    case False
    then have "parseInt (numberToString n) = 10 * parseInt (numberToString (n div 10)) + digit_val (digit_char (n mod 10))"
      by (simp add: numberToString.simps [of n] parseInt_snoc)
    then show ?thesis
      using 1 False by (simp add: digit_val_digit_char)
  qed
qed

lemma incrementV8Version_run:
  assumes "outside w (trace s) (ReadFile (versionHPath s)) = Inr versionH"
  shows "task (incrementV8Version w) s =
     (case outside w (trace s @ [ReadFile (versionHPath s)])
             (WriteFile (versionHPath s)
                (regex_replace patchLevelRegex versionH
                   (''V8_PATCH_LEVEL '' @ numberToString (currentVersionPatch s + 1)))) of
        Inl e \<Rightarrow> Thrown e | Inr out \<Rightarrow> Returned (),
      s\<lparr>currentVersionPatch := currentVersionPatch s + 1,
        trace := trace s @ [ReadFile (versionHPath s),
                   WriteFile (versionHPath s)
                     (regex_replace patchLevelRegex versionH
                        (''V8_PATCH_LEVEL '' @ numberToString (currentVersionPatch s + 1)))]\<rparr>)"
  using assms
  by (simp add: incrementV8Version_def versionHPath_def Let_def await_def readFile_def
      writeFile_def perform_def return_def split: sum.splits)

lemma incrementEmbedderVersion_no_match:
  assumes "outside w (trace s) (ReadFile (commonGypiPath w s)) = Inr commonGypi"
    and "regex_exec embedderRegex commonGypi = None"
  shows "task (incrementEmbedderVersion w) s =
     (Thrown (TypeError ''Cannot read properties of null''),
      s\<lparr>trace := trace s @ [ReadFile (commonGypiPath w s)]\<rparr>)"
  using assms
  by (simp add: incrementEmbedderVersion_def commonGypiPath_def Let_def await_def readFile_def
      perform_def throw_def)

lemma incrementEmbedderVersion_match:
  assumes "outside w (trace s) (ReadFile (commonGypiPath w s)) = Inr commonGypi"
    and "regex_exec embedderRegex commonGypi = Some (pre, ds, post)"
    and "outside w (trace s @ [ReadFile (commonGypiPath w s)])
           (WriteFile (commonGypiPath w s)
              (pre @ [sq] @ ''v8_embedder_string'' @ [sq] @ '': '' @ [sq] @ ''-node.'' @
               numberToString (parseInt ds + 1) @ [sq] @ post)) = Inr out"
  shows "trace (snd (task (incrementEmbedderVersion w) s)) =
      trace s @ [ReadFile (commonGypiPath w s),
                 WriteFile (commonGypiPath w s)
                   (pre @ [sq] @ ''v8_embedder_string'' @ [sq] @ '': '' @ [sq] @ ''-node.'' @
                    numberToString (parseInt ds + 1) @ [sq] @ post),
                 GitNode ''add'' [''common.gypi''] None]"
  using assms
  by (simp add: incrementEmbedderVersion_def commonGypiPath_def Let_def await_def readFile_def
      writeFile_def execGitNode_def perform_def return_def regex_replace_def split: sum.splits)

text \<open>
  Claim C7. When the version header holds the pattern \<open>V8_PATCH_LEVEL <digits>\<close>, the
  patch-level bump increments the counter in memory and writes the file back with the
  digits of the first match replaced by the new counter, the text before and after
  the match as it was; its only events are the read and the write, so it stages
  nothing. When the build configuration holds the embedder pattern with the digits of
  \<open>N\<close>, the embedder bump writes the file back with \<open>N + 1\<close> in their place, the text
  around the match as it was, and then stages \<open>common.gypi\<close>. Numbers are below
  \<open>2 ^ 53\<close>.
\<close>

theorem version_bump_rewrites:
  "(\<forall>versionH pre ds post.
      outside w (trace s) (ReadFile (versionHPath s)) = Inr versionH \<and>
      regex_exec patchLevelRegex versionH = Some (pre, ds, post) \<and>
      safeInteger (currentVersionPatch s + 1) \<longrightarrow>
        versionH = pre @ ''V8_PATCH_LEVEL '' @ ds @ post \<and> ds \<noteq> [] \<and> list_all is_digit ds \<and>
        trace (snd (task (incrementV8Version w) s)) =
          trace s @ [ReadFile (versionHPath s),
                     WriteFile (versionHPath s)
                       (pre @ ''V8_PATCH_LEVEL '' @ numberToString (currentVersionPatch s + 1) @
                        post)] \<and>
        currentVersionPatch (snd (task (incrementV8Version w) s)) = currentVersionPatch s + 1) \<and>
   (\<forall>commonGypi pre ds post out.
      outside w (trace s) (ReadFile (commonGypiPath w s)) = Inr commonGypi \<and>
      regex_exec embedderRegex commonGypi = Some (pre, ds, post) \<and>
      safeInteger (parseInt ds + 1) \<and>
      outside w (trace s @ [ReadFile (commonGypiPath w s)])
        (WriteFile (commonGypiPath w s)
           (pre @ [sq] @ ''v8_embedder_string'' @ [sq] @ '': '' @ [sq] @ ''-node.'' @
            numberToString (parseInt ds + 1) @ [sq] @ post)) = Inr out \<longrightarrow>
        commonGypi =
          pre @ [sq] @ ''v8_embedder_string'' @ [sq] @ '': '' @ [sq] @ ''-node.'' @ ds @ [sq] @
          post \<and>
        ds \<noteq> [] \<and> list_all is_digit ds \<and>
        trace (snd (task (incrementEmbedderVersion w) s)) =
          trace s @ [ReadFile (commonGypiPath w s),
                     WriteFile (commonGypiPath w s)
                       (pre @ [sq] @ ''v8_embedder_string'' @ [sq] @ '': '' @ [sq] @ ''-node.'' @
                        numberToString (parseInt ds + 1) @ [sq] @ post),
                     GitNode ''add'' [''common.gypi''] None]) \<and>
   (\<forall>n. parseInt (numberToString n) = n)"
proof (intro conjI allI impI)
  fix versionH pre ds post
  assume a: "outside w (trace s) (ReadFile (versionHPath s)) = Inr versionH \<and>
      regex_exec patchLevelRegex versionH = Some (pre, ds, post) \<and>
      safeInteger (currentVersionPatch s + 1)"
  have shape: "versionH = pre @ ''V8_PATCH_LEVEL '' @ ds @ post \<and> ds \<noteq> [] \<and> list_all is_digit ds"
    using regex_exec_Some [of patchLevelRegex versionH pre ds post] a
    by (simp add: patchLevelRegex_def)
  show "versionH = pre @ ''V8_PATCH_LEVEL '' @ ds @ post" "ds \<noteq> []" "list_all is_digit ds"
    using shape by blast+
  have run: "snd (task (incrementV8Version w) s) =
      s\<lparr>currentVersionPatch := currentVersionPatch s + 1,
        trace := trace s @ [ReadFile (versionHPath s),
                   WriteFile (versionHPath s)
                     (regex_replace patchLevelRegex versionH
                        (''V8_PATCH_LEVEL '' @ numberToString (currentVersionPatch s + 1)))]\<rparr>"
    using incrementV8Version_run [of w s versionH] a by simp
  show "trace (snd (task (incrementV8Version w) s)) =
          trace s @ [ReadFile (versionHPath s),
                     WriteFile (versionHPath s)
                       (pre @ ''V8_PATCH_LEVEL '' @ numberToString (currentVersionPatch s + 1) @
                        post)]"
    using a by (simp add: run regex_replace_def)
  show "currentVersionPatch (snd (task (incrementV8Version w) s)) = currentVersionPatch s + 1"
    by (simp add: run)
next
  fix commonGypi pre ds post out
  assume a: "outside w (trace s) (ReadFile (commonGypiPath w s)) = Inr commonGypi \<and>
      regex_exec embedderRegex commonGypi = Some (pre, ds, post) \<and>
      safeInteger (parseInt ds + 1) \<and>
      outside w (trace s @ [ReadFile (commonGypiPath w s)])
        (WriteFile (commonGypiPath w s)
           (pre @ [sq] @ ''v8_embedder_string'' @ [sq] @ '': '' @ [sq] @ ''-node.'' @
            numberToString (parseInt ds + 1) @ [sq] @ post)) = Inr out"
  have shape: "commonGypi =
          pre @ [sq] @ ''v8_embedder_string'' @ [sq] @ '': '' @ [sq] @ ''-node.'' @ ds @ [sq] @
          post \<and> ds \<noteq> [] \<and> list_all is_digit ds"
    using regex_exec_Some [of embedderRegex commonGypi pre ds post] a
    by (simp add: embedderRegex_def)
  show "commonGypi =
          pre @ [sq] @ ''v8_embedder_string'' @ [sq] @ '': '' @ [sq] @ ''-node.'' @ ds @ [sq] @
          post" "ds \<noteq> []" "list_all is_digit ds"
    using shape by blast+
  show "trace (snd (task (incrementEmbedderVersion w) s)) =
          trace s @ [ReadFile (commonGypiPath w s),
                     WriteFile (commonGypiPath w s)
                       (pre @ [sq] @ ''v8_embedder_string'' @ [sq] @ '': '' @ [sq] @ ''-node.'' @
                        numberToString (parseInt ds + 1) @ [sq] @ post),
                     GitNode ''add'' [''common.gypi''] None]"
    using incrementEmbedderVersion_match [of w s commonGypi pre ds post out] a by blast
next
  fix n
  show "parseInt (numberToString n) = n"
    by (rule parseInt_numberToString)
qed

theorem version_bump_rewrites_witness:
  "outside filesWorld (trace exampleCtx) (ReadFile (versionHPath exampleCtx)) = Inr exampleVersionH \<and>
   regex_exec patchLevelRegex exampleVersionH =
     Some (''#define V8_BUILD_NUMBER 7\<newline>#define '', ''12'',
           ''\<newline>#define V8_IS_CANDIDATE_VERSION 0\<newline>'') \<and>
   currentVersionPatch exampleCtx = 12 \<and>
   safeInteger (currentVersionPatch exampleCtx + 1) \<and>
   trace (snd (task (incrementV8Version filesWorld) exampleCtx)) =
     [ReadFile ''/node/deps/v8/include/v8-version.h'',
      WriteFile ''/node/deps/v8/include/v8-version.h''
        ''#define V8_BUILD_NUMBER 7\<newline>#define V8_PATCH_LEVEL 13\<newline>#define V8_IS_CANDIDATE_VERSION 0\<newline>''] \<and>
   currentVersionPatch (snd (task (incrementV8Version filesWorld) exampleCtx)) = 13 \<and>
   outside filesWorld (trace exampleCtx) (ReadFile (commonGypiPath filesWorld exampleCtx)) =
     Inr exampleGypi \<and>
   regex_exec embedderRegex exampleGypi =
     Some (''    # Reset this number to 0 on major V8 upgrades.\<newline>    '', ''5'', '',\<newline>'') \<and>
   safeInteger (parseInt ''5'' + 1) \<and>
   trace (snd (task (incrementEmbedderVersion filesWorld) exampleCtx)) =
     [ReadFile ''/node/common.gypi'',
      WriteFile ''/node/common.gypi''
        (''    # Reset this number to 0 on major V8 upgrades.\<newline>    '' @ [sq] @
         ''v8_embedder_string'' @ [sq] @ '': '' @ [sq] @ ''-node.6'' @ [sq] @ '',\<newline>''),
      GitNode ''add'' [''common.gypi''] None] \<and>
   parseInt (numberToString 5) = 5"
proof -
  have rd1: "outside filesWorld (trace exampleCtx) (ReadFile (versionHPath exampleCtx)) =
      Inr exampleVersionH"
    by (simp add: filesWorld_def quietWorld_def versionHPath_def exampleCtx_def)
  have m1: "regex_exec patchLevelRegex exampleVersionH =
     Some (''#define V8_BUILD_NUMBER 7\<newline>#define '', ''12'',
           ''\<newline>#define V8_IS_CANDIDATE_VERSION 0\<newline>'')"
    by (simp add: regex_exec_def patchLevelRegex_def match_here_def exampleVersionH_def
        is_digit_def nl_def)
  have cv: "currentVersionPatch exampleCtx = 12"
    by (simp add: exampleCtx_def)
  have safe1: "safeInteger (currentVersionPatch exampleCtx + 1)"
    by (simp add: safeInteger_def cv)
  have rd2: "outside filesWorld (trace exampleCtx)
      (ReadFile (commonGypiPath filesWorld exampleCtx)) = Inr exampleGypi"
    by (simp add: filesWorld_def quietWorld_def commonGypiPath_def exampleCtx_def)
  have m2: "regex_exec embedderRegex exampleGypi =
     Some (''    # Reset this number to 0 on major V8 upgrades.\<newline>    '', ''5'', '',\<newline>'')"
    by (simp add: regex_exec_def embedderRegex_def match_here_def exampleGypi_def
        is_digit_def nl_def sq_def)
  have p5: "parseInt ''5'' = 5"
    by (simp add: parseInt_def digit_val_def)
  have safe2: "safeInteger (parseInt ''5'' + 1)"
    by (simp add: safeInteger_def p5)
  have wr: "outside filesWorld (trace exampleCtx @ [ReadFile (commonGypiPath filesWorld exampleCtx)])
        (WriteFile (commonGypiPath filesWorld exampleCtx)
           (''    # Reset this number to 0 on major V8 upgrades.\<newline>    '' @ [sq] @
            ''v8_embedder_string'' @ [sq] @ '': '' @ [sq] @ ''-node.'' @
            numberToString (parseInt ''5'' + 1) @ [sq] @ '',\<newline>'')) = Inr []"
    by (simp add: filesWorld_def quietWorld_def)
  note t = version_bump_rewrites [of filesWorld exampleCtx]
  have a: "trace (snd (task (incrementV8Version filesWorld) exampleCtx)) =
          trace exampleCtx @ [ReadFile (versionHPath exampleCtx),
                     WriteFile (versionHPath exampleCtx)
                       (''#define V8_BUILD_NUMBER 7\<newline>#define '' @ ''V8_PATCH_LEVEL '' @
                        numberToString (currentVersionPatch exampleCtx + 1) @
                        ''\<newline>#define V8_IS_CANDIDATE_VERSION 0\<newline>'')]"
    and b: "currentVersionPatch (snd (task (incrementV8Version filesWorld) exampleCtx)) =
          currentVersionPatch exampleCtx + 1"
    using t rd1 m1 safe1 by blast+
  have c: "trace (snd (task (incrementEmbedderVersion filesWorld) exampleCtx)) =
          trace exampleCtx @ [ReadFile (commonGypiPath filesWorld exampleCtx),
                     WriteFile (commonGypiPath filesWorld exampleCtx)
                       (''    # Reset this number to 0 on major V8 upgrades.\<newline>    '' @ [sq] @
                        ''v8_embedder_string'' @ [sq] @ '': '' @ [sq] @ ''-node.'' @
                        numberToString (parseInt ''5'' + 1) @ [sq] @ '',\<newline>''),
                     GitNode ''add'' [''common.gypi''] None]"
    using t rd2 m2 safe2 wr by blast
  have d: "parseInt (numberToString 5) = 5"
    using t by blast
  have n13: "numberToString 13 = ''13''" and n6: "numberToString 6 = ''6''"
    by (simp_all add: numberToString.simps digit_char_def)
  have a': "trace (snd (task (incrementV8Version filesWorld) exampleCtx)) =
     [ReadFile ''/node/deps/v8/include/v8-version.h'',
      WriteFile ''/node/deps/v8/include/v8-version.h''
        ''#define V8_BUILD_NUMBER 7\<newline>#define V8_PATCH_LEVEL 13\<newline>#define V8_IS_CANDIDATE_VERSION 0\<newline>'']"
    using a by (simp add: cv n13 versionHPath_def exampleCtx_def)
  have b': "currentVersionPatch (snd (task (incrementV8Version filesWorld) exampleCtx)) = 13"
    using b by (simp add: cv)
  have c': "trace (snd (task (incrementEmbedderVersion filesWorld) exampleCtx)) =
     [ReadFile ''/node/common.gypi'',
      WriteFile ''/node/common.gypi''
        (''    # Reset this number to 0 on major V8 upgrades.\<newline>    '' @ [sq] @
         ''v8_embedder_string'' @ [sq] @ '': '' @ [sq] @ ''-node.6'' @ [sq] @ '',\<newline>''),
      GitNode ''add'' [''common.gypi''] None]"
    using c by (simp add: p5 n6 commonGypiPath_def exampleCtx_def filesWorld_def quietWorld_def)
  show ?thesis
    using rd1 m1 cv safe1 a' b' rd2 m2 safe2 c' d by blast
qed

text \<open>
  Claim C8, as amended. When the embedder pattern is absent from the build
  configuration, the embedder bump throws a TypeError after reading the file: nothing
  is written or staged, and the task list it belongs to stops there. When the
  patch-level pattern is absent from the version header, the patch-level bump throws
  nothing: it increments the counter in memory, writes the file back as it read it
  and returns.
\<close>

theorem absent_pattern:
  "(\<forall>commonGypi later.
      outside w (trace s) (ReadFile (commonGypiPath w s)) = Inr commonGypi \<and>
      regex_exec embedderRegex commonGypi = None \<longrightarrow>
        task (incrementEmbedderVersion w) s =
          (Thrown (TypeError ''Cannot read properties of null''),
           s\<lparr>trace := trace s @ [ReadFile (commonGypiPath w s)]\<rparr>) \<and>
        newListr (incrementEmbedderVersion w # later) s =
          (Thrown (TypeError ''Cannot read properties of null''),
           s\<lparr>trace := trace s @ [ReadFile (commonGypiPath w s)]\<rparr>)) \<and>
   (\<forall>versionH out.
      outside w (trace s) (ReadFile (versionHPath s)) = Inr versionH \<and>
      regex_exec patchLevelRegex versionH = None \<and>
      outside w (trace s @ [ReadFile (versionHPath s)]) (WriteFile (versionHPath s) versionH) =
        Inr out \<longrightarrow>
        task (incrementV8Version w) s =
          (Returned (),
           s\<lparr>currentVersionPatch := currentVersionPatch s + 1,
             trace := trace s @ [ReadFile (versionHPath s),
                                 WriteFile (versionHPath s) versionH]\<rparr>))"
proof (intro conjI allI impI)
  fix commonGypi later
  assume a: "outside w (trace s) (ReadFile (commonGypiPath w s)) = Inr commonGypi \<and>
      regex_exec embedderRegex commonGypi = None"
  then show t: "task (incrementEmbedderVersion w) s =
          (Thrown (TypeError ''Cannot read properties of null''),
           s\<lparr>trace := trace s @ [ReadFile (commonGypiPath w s)]\<rparr>)"
    using incrementEmbedderVersion_no_match [of w s commonGypi] by blast
  show "newListr (incrementEmbedderVersion w # later) s =
          (Thrown (TypeError ''Cannot read properties of null''),
           s\<lparr>trace := trace s @ [ReadFile (commonGypiPath w s)]\<rparr>)"
    by (simp add: t)
next
  fix versionH out
  assume a: "outside w (trace s) (ReadFile (versionHPath s)) = Inr versionH \<and>
      regex_exec patchLevelRegex versionH = None \<and>
      outside w (trace s @ [ReadFile (versionHPath s)]) (WriteFile (versionHPath s) versionH) =
        Inr out"
  then have "regex_replace patchLevelRegex versionH r = versionH" for r
    by (simp add: regex_replace_def)
  then show "task (incrementV8Version w) s =
          (Returned (),
           s\<lparr>currentVersionPatch := currentVersionPatch s + 1,
             trace := trace s @ [ReadFile (versionHPath s),
                                 WriteFile (versionHPath s) versionH]\<rparr>)"
    using incrementV8Version_run [of w s versionH] a by simp
qed

theorem absent_pattern_witness:
  "outside staleFilesWorld (trace exampleCtx) (ReadFile (commonGypiPath staleFilesWorld exampleCtx)) =
     Inr ''#define V8_MINOR_VERSION 4'' \<and>
   regex_exec embedderRegex ''#define V8_MINOR_VERSION 4'' = None \<and>
   newListr [incrementEmbedderVersion staleFilesWorld, commitSquashedBackport staleFilesWorld]
       exampleCtx =
     (Thrown (TypeError ''Cannot read properties of null''),
      exampleCtx\<lparr>trace := [ReadFile ''/node/common.gypi'']\<rparr>) \<and>
   outside staleFilesWorld (trace exampleCtx) (ReadFile (versionHPath exampleCtx)) =
     Inr ''#define V8_MINOR_VERSION 4'' \<and>
   regex_exec patchLevelRegex ''#define V8_MINOR_VERSION 4'' = None \<and>
   outside staleFilesWorld (trace exampleCtx @ [ReadFile (versionHPath exampleCtx)])
     (WriteFile (versionHPath exampleCtx) ''#define V8_MINOR_VERSION 4'') = Inr [] \<and>
   fst (task (incrementV8Version staleFilesWorld) exampleCtx) = Returned ()"
proof -
  have rd: "outside staleFilesWorld (trace exampleCtx)
      (ReadFile (commonGypiPath staleFilesWorld exampleCtx)) = Inr ''#define V8_MINOR_VERSION 4''"
    "outside staleFilesWorld (trace exampleCtx) (ReadFile (versionHPath exampleCtx)) =
      Inr ''#define V8_MINOR_VERSION 4''"
    "outside staleFilesWorld (trace exampleCtx @ [ReadFile (versionHPath exampleCtx)])
      (WriteFile (versionHPath exampleCtx) ''#define V8_MINOR_VERSION 4'') = Inr []"
    by (simp_all add: staleFilesWorld_def quietWorld_def)
  have none: "regex_exec embedderRegex ''#define V8_MINOR_VERSION 4'' = None"
    "regex_exec patchLevelRegex ''#define V8_MINOR_VERSION 4'' = None"
    by (simp_all add: regex_exec_def embedderRegex_def patchLevelRegex_def match_here_def sq_def)
  note t = absent_pattern [of staleFilesWorld exampleCtx]
  have a: "newListr [incrementEmbedderVersion staleFilesWorld, commitSquashedBackport staleFilesWorld]
       exampleCtx =
     (Thrown (TypeError ''Cannot read properties of null''),
      exampleCtx\<lparr>trace := trace exampleCtx @ [ReadFile (commonGypiPath staleFilesWorld exampleCtx)]\<rparr>)"
    using t rd(1) none(1) by blast
  have b: "task (incrementV8Version staleFilesWorld) exampleCtx =
          (Returned (),
           exampleCtx\<lparr>currentVersionPatch := currentVersionPatch exampleCtx + 1,
             trace := trace exampleCtx @ [ReadFile (versionHPath exampleCtx),
                                 WriteFile (versionHPath exampleCtx) ''#define V8_MINOR_VERSION 4'']\<rparr>)"
    using t rd(2) rd(3) none(2) by blast
  have a': "newListr [incrementEmbedderVersion staleFilesWorld, commitSquashedBackport staleFilesWorld]
       exampleCtx =
     (Thrown (TypeError ''Cannot read properties of null''),
      exampleCtx\<lparr>trace := [ReadFile ''/node/common.gypi'']\<rparr>)"
    unfolding a by (simp add: commonGypiPath_def staleFilesWorld_def quietWorld_def exampleCtx_def)
  have b': "fst (task (incrementV8Version staleFilesWorld) exampleCtx) = Returned ()"
    unfolding b by simp
  show ?thesis
    using rd none a' b' by blast
qed

text \<open>
  The claim as stated fails for the patch-level bump: on a version header without the
  pattern it returns normally and leaves the file as it was.
\<close>

theorem absent_pattern_counterexample:
  "outside staleFilesWorld (trace exampleCtx) (ReadFile (versionHPath exampleCtx)) =
     Inr ''#define V8_MINOR_VERSION 4'' \<and>
   regex_exec patchLevelRegex ''#define V8_MINOR_VERSION 4'' = None \<and>
   task (incrementV8Version staleFilesWorld) exampleCtx =
     (Returned (),
      exampleCtx\<lparr>currentVersionPatch := 13,
        trace := [ReadFile ''/node/deps/v8/include/v8-version.h'',
                  WriteFile ''/node/deps/v8/include/v8-version.h''
                    ''#define V8_MINOR_VERSION 4'']\<rparr>)"
proof -
  have none: "regex_exec patchLevelRegex ''#define V8_MINOR_VERSION 4'' = None"
    by (simp add: regex_exec_def patchLevelRegex_def match_here_def)
  have rd: "outside staleFilesWorld (trace exampleCtx) (ReadFile (versionHPath exampleCtx)) =
      Inr ''#define V8_MINOR_VERSION 4''"
    by (simp add: staleFilesWorld_def quietWorld_def)
  have "task (incrementV8Version staleFilesWorld) exampleCtx =
     (Returned (),
      exampleCtx\<lparr>currentVersionPatch := 13,
        trace := [ReadFile ''/node/deps/v8/include/v8-version.h'',
                  WriteFile ''/node/deps/v8/include/v8-version.h''
                    ''#define V8_MINOR_VERSION 4'']\<rparr>)"
    using none
    by (simp add: incrementV8Version_def Let_def await_def readFile_def writeFile_def
        perform_def return_def regex_replace_def staleFilesWorld_def quietWorld_def
        exampleCtx_def)
  then show ?thesis
    using none rd by blast
qed

subsection \<open>Patch generation\<close>

lemma settle_Returned:
  assumes "length vs = length rs" "length slots = length rs"
    and "\<forall>i<length rs. rs ! i = Returned (vs ! i)"
    and "\<forall>i<length rs. slots ! i = None \<or> slots ! i = Some (vs ! i)"
    and "\<forall>i<length rs. slots ! i = None \<longrightarrow> i \<in> set order"
  shows "settle order rs slots = Returned vs"
  using assms
proof (induction order arbitrary: slots)
  case Nil
  then have all: "\<forall>i<length rs. slots ! i = Some (vs ! i)"
    by (metis empty_iff list.set(1))
  then have "list_all (\<lambda>v. v \<noteq> None) slots"
    using Nil.prems(2) by (auto simp: list_all_length)
  moreover have "map the slots = vs"
    using all Nil.prems(1,2) by (intro nth_equalityI) auto
  ultimately show ?case
    by simp
next
  case (Cons k order)
  show ?case
  proof (cases "k < length rs")
    case True
    let ?slots = "slots[k := Some (vs ! k)]"
    have "settle order rs ?slots = Returned vs"
    proof (rule Cons.IH)
      show "length vs = length rs" "length ?slots = length rs"
        using Cons.prems by simp_all
      show "\<forall>i<length rs. rs ! i = Returned (vs ! i)"
        using Cons.prems by blast
      show "\<forall>i<length rs. ?slots ! i = None \<or> ?slots ! i = Some (vs ! i)"
      proof (intro allI impI)
        fix i
        assume "i < length rs"
        then show "?slots ! i = None \<or> ?slots ! i = Some (vs ! i)"
          using Cons.prems(2,4) by (cases "i = k") simp_all
      qed
      show "\<forall>i<length rs. ?slots ! i = None \<longrightarrow> i \<in> set order"
      proof (intro allI impI)
        fix i
        assume "i < length rs" "?slots ! i = None"
        then show "i \<in> set order"
          using Cons.prems(2,5) by (cases "i = k") auto
      qed
    qed
    then show ?thesis
      using True Cons.prems(3) by simp
  next
    case False
    have "settle order rs slots = Returned vs"
    proof (rule Cons.IH)
      show "length vs = length rs" "length slots = length rs"
        using Cons.prems by simp_all
      show "\<forall>i<length rs. rs ! i = Returned (vs ! i)"
        using Cons.prems by blast
      show "\<forall>i<length rs. slots ! i = None \<or> slots ! i = Some (vs ! i)"
        using Cons.prems by blast
      show "\<forall>i<length rs. slots ! i = None \<longrightarrow> i \<in> set order"
        using Cons.prems(5) False by auto
    qed
    then show ?thesis
      using False by simp
  qed
qed

lemma promiseAll_Returned:
  assumes "{0..<length vs} \<subseteq> set order"
  shows "promiseAll order (map Returned vs) = Returned vs"
  unfolding promiseAll_def
  using assms by (intro settle_Returned) auto

lemma map_enumerate_nth:
  "map (\<lambda>(i, x). f i x) (enumerate 0 xs) = map (\<lambda>i. f i (xs ! i)) [0..<length xs]"
  by (intro nth_equalityI) (auto simp: nth_enumerate_eq)

lemma fetchPatch_Returned:
  assumes "{0, 1} \<subseteq> set (settleOrder w (2 + i))"
    and "gitV8 w (formatPatchArgs full) = Inr d" "gitV8 w (logArgs full) = Inr m"
  shows "fetchPatch w i full =
     Returned \<lparr>sha = full, data = d, message = m, hadConflicts = False\<rparr>"
proof -
  have "{0..<length [d, m]} \<subseteq> set (settleOrder w (2 + i))"
    using assms(1) by (auto simp: less_Suc_eq)
  then have "promiseAll (settleOrder w (2 + i)) (map Returned [d, m]) = Returned [d, m]"
    by (rule promiseAll_Returned)
  then show ?thesis
    using assms(2,3) by (simp add: fetchPatch_def execGitV8_def mapReturned_def)
qed

text \<open>
  Claim C6. When every upstream query succeeds and every promise settles, in whatever
  order, patch generation returns with one patch record per requested reference, in
  the order of the references: the record's \<open>sha\<close> is the trimmed output of
  \<open>rev-parse\<close> for the reference, its \<open>data\<close> the output of \<open>format-patch\<close> for the
  one-commit range of that SHA, its \<open>message\<close> the output of \<open>log -n 1\<close> for that SHA.
\<close>

theorem generatePatches_order:
  assumes "{0..<length (shas s)} \<subseteq> set (settleOrder w 0)"
    and "{0..<length (shas s)} \<subseteq> set (settleOrder w 1)"
    and "\<forall>i<length (shas s). {0, 1} \<subseteq> set (settleOrder w (2 + i))"
    and "\<forall>ref \<in> set (shas s).
           gitV8 w (revParseArgs ref) = Inr (resolve ref) \<and>
           gitV8 w (formatPatchArgs (trim (resolve ref))) = Inr (diff ref) \<and>
           gitV8 w (logArgs (trim (resolve ref))) = Inr (msg ref)"
  shows "task (generatePatches w) s =
     (Returned (),
      s\<lparr>trace := trace s @ map (\<lambda>ref. GitV8 (revParseArgs ref)) (shas s) @
                  concat (map (\<lambda>ref. [GitV8 (formatPatchArgs (trim (resolve ref))),
                                       GitV8 (logArgs (trim (resolve ref)))]) (shas s)),
        patches := map (\<lambda>ref. \<lparr>sha = trim (resolve ref), data = diff ref, message = msg ref,
                                hadConflicts = False\<rparr>) (shas s)\<rparr>)"
proof -
  let ?fulls = "map (\<lambda>ref. trim (resolve ref)) (shas s)"
  let ?recs = "map (\<lambda>ref. \<lparr>sha = trim (resolve ref), data = diff ref, message = msg ref,
                            hadConflicts = False\<rparr>) (shas s)"
  have p1: "map (\<lambda>ref. mapReturned trim (execGitV8 w (revParseArgs ref))) (shas s) =
      map Returned ?fulls"
    using assms(4) by (simp add: execGitV8_def mapReturned_def)
  have "promiseAll (settleOrder w 0) (map Returned ?fulls) = Returned ?fulls"
    using assms(1) by (intro promiseAll_Returned) simp
  then have r1: "promiseAll (settleOrder w 0)
      (map (\<lambda>ref. mapReturned trim (execGitV8 w (revParseArgs ref))) (shas s)) = Returned ?fulls"
    unfolding p1 .
  have p2: "map (\<lambda>(i, full). fetchPatch w i full) (enumerate 0 ?fulls) = map Returned ?recs"
  proof (intro nth_equalityI)
    show "length (map (\<lambda>(i, full). fetchPatch w i full) (enumerate 0 ?fulls)) =
        length (map Returned ?recs)"
      by simp
    fix i
    assume "i < length (map (\<lambda>(i, full). fetchPatch w i full) (enumerate 0 ?fulls))"
    then have i: "i < length (shas s)"
      by simp
    then have "shas s ! i \<in> set (shas s)"
      by simp
    then have "fetchPatch w i (trim (resolve (shas s ! i))) =
        Returned \<lparr>sha = trim (resolve (shas s ! i)), data = diff (shas s ! i),
                  message = msg (shas s ! i), hadConflicts = False\<rparr>"
      using assms(3,4) i by (intro fetchPatch_Returned) auto
    then show "map (\<lambda>(i, full). fetchPatch w i full) (enumerate 0 ?fulls) ! i =
        map Returned ?recs ! i"
      using i by (simp add: nth_enumerate_eq)
  qed
  have "promiseAll (settleOrder w 1) (map Returned ?recs) = Returned ?recs"
    using assms(2) by (intro promiseAll_Returned) simp
  then have r2: "promiseAll (settleOrder w 1)
      (map (\<lambda>(i, full). fetchPatch w i full) (enumerate 0 ?fulls)) = Returned ?recs"
    unfolding p2 .
  have tr: "concat (map (\<lambda>full. [GitV8 (formatPatchArgs full), GitV8 (logArgs full)]) ?fulls) =
      concat (map (\<lambda>ref. [GitV8 (formatPatchArgs (trim (resolve ref))),
                           GitV8 (logArgs (trim (resolve ref)))]) (shas s))"
    by (simp add: comp_def)
  have "task (generatePatches w) s =
      (Returned (),
       s\<lparr>trace := trace s @ map (\<lambda>ref. GitV8 (revParseArgs ref)) (shas s),
         trace := (trace s @ map (\<lambda>ref. GitV8 (revParseArgs ref)) (shas s)) @
           concat (map (\<lambda>full. [GitV8 (formatPatchArgs full), GitV8 (logArgs full)]) ?fulls),
         patches := ?recs\<rparr>)"
    unfolding generatePatches_def Let_def listr_task.simps r1 outcome.case r2
    by simp
  then show ?thesis
    unfolding tr by simp
qed

theorem generatePatches_order_witness:
  "shas requestCtx = [''bbbb'', ''aaaa'', ''cccc''] \<and>
   settleOrder upstreamWorld 0 = [2, 0, 1] \<and>
   settleOrder upstreamWorld 1 = [2, 0, 1] \<and>
   settleOrder upstreamWorld 2 = [1, 0] \<and>
   fst (task (generatePatches upstreamWorld) requestCtx) = Returned () \<and>
   patches (snd (task (generatePatches upstreamWorld) requestCtx)) =
     [\<lparr>sha = ''bbbb0123'', data = ''diff bbbb0123^..bbbb0123'',
       message = ''message of bbbb0123'', hadConflicts = False\<rparr>,
      \<lparr>sha = ''aaaa0123'', data = ''diff aaaa0123^..aaaa0123'',
       message = ''message of aaaa0123'', hadConflicts = False\<rparr>,
      \<lparr>sha = ''cccc0123'', data = ''diff cccc0123^..cccc0123'',
       message = ''message of cccc0123'', hadConflicts = False\<rparr>] \<and>
   trace (snd (task (generatePatches upstreamWorld) requestCtx)) =
     [GitV8 [''rev-parse'', ''bbbb''], GitV8 [''rev-parse'', ''aaaa''],
      GitV8 [''rev-parse'', ''cccc''],
      GitV8 [''format-patch'', ''--stdout'', ''bbbb0123^..bbbb0123''],
      GitV8 [''log'', ''--format=%B'', ''-n'', ''1'', ''bbbb0123''],
      GitV8 [''format-patch'', ''--stdout'', ''aaaa0123^..aaaa0123''],
      GitV8 [''log'', ''--format=%B'', ''-n'', ''1'', ''aaaa0123''],
      GitV8 [''format-patch'', ''--stdout'', ''cccc0123^..cccc0123''],
      GitV8 [''log'', ''--format=%B'', ''-n'', ''1'', ''cccc0123'']]"
proof -
  define resolve where "resolve = (\<lambda>ref :: string. ref @ ''0123'' @ [nl])"
  define diff where "diff = (\<lambda>ref :: string. ''diff '' @ ref @ ''0123^..'' @ ref @ ''0123'')"
  define msg where "msg = (\<lambda>ref :: string. ''message of '' @ ref @ ''0123'')"
  have sh: "shas requestCtx = [''bbbb'', ''aaaa'', ''cccc'']"
    by (simp add: requestCtx_def exampleCtx_def)
  have so: "settleOrder upstreamWorld 0 = [2, 0, 1]" "settleOrder upstreamWorld 1 = [2, 0, 1]"
    "settleOrder upstreamWorld 2 = [1, 0]"
    by (simp_all add: upstreamWorld_def quietWorld_def)
  have tm: "trim (resolve ref) = ref @ ''0123''" if "ref \<in> set (shas requestCtx)" for ref
    using that by (auto simp: sh resolve_def trim_def is_space_def nl_def)
  have h1: "{0..<length (shas requestCtx)} \<subseteq> set (settleOrder upstreamWorld 0)"
    and h2: "{0..<length (shas requestCtx)} \<subseteq> set (settleOrder upstreamWorld 1)"
    unfolding sh so by (auto simp: less_Suc_eq)
  have h3: "\<forall>i<length (shas requestCtx). {0, 1} \<subseteq> set (settleOrder upstreamWorld (2 + i))"
    by (simp add: upstreamWorld_def quietWorld_def)
  have h4: "\<forall>ref \<in> set (shas requestCtx).
           gitV8 upstreamWorld (revParseArgs ref) = Inr (resolve ref) \<and>
           gitV8 upstreamWorld (formatPatchArgs (trim (resolve ref))) = Inr (diff ref) \<and>
           gitV8 upstreamWorld (logArgs (trim (resolve ref))) = Inr (msg ref)"
    using tm
    by (simp add: upstreamWorld_def quietWorld_def revParseArgs_def formatPatchArgs_def
        logArgs_def resolve_def diff_def msg_def)
  note t = generatePatches_order [OF h1 h2 h3 h4]
  have tr0: "trace requestCtx = []"
    by (simp add: requestCtx_def exampleCtx_def)
  have a: "fst (task (generatePatches upstreamWorld) requestCtx) = Returned ()"
    by (simp add: t)
  have b: "patches (snd (task (generatePatches upstreamWorld) requestCtx)) =
     [\<lparr>sha = ''bbbb0123'', data = ''diff bbbb0123^..bbbb0123'',
       message = ''message of bbbb0123'', hadConflicts = False\<rparr>,
      \<lparr>sha = ''aaaa0123'', data = ''diff aaaa0123^..aaaa0123'',
       message = ''message of aaaa0123'', hadConflicts = False\<rparr>,
      \<lparr>sha = ''cccc0123'', data = ''diff cccc0123^..cccc0123'',
       message = ''message of cccc0123'', hadConflicts = False\<rparr>]"
    using tm by (simp add: t sh diff_def msg_def)
  have c: "trace (snd (task (generatePatches upstreamWorld) requestCtx)) =
     [GitV8 [''rev-parse'', ''bbbb''], GitV8 [''rev-parse'', ''aaaa''],
      GitV8 [''rev-parse'', ''cccc''],
      GitV8 [''format-patch'', ''--stdout'', ''bbbb0123^..bbbb0123''],
      GitV8 [''log'', ''--format=%B'', ''-n'', ''1'', ''bbbb0123''],
      GitV8 [''format-patch'', ''--stdout'', ''aaaa0123^..aaaa0123''],
      GitV8 [''log'', ''--format=%B'', ''-n'', ''1'', ''aaaa0123''],
      GitV8 [''format-patch'', ''--stdout'', ''cccc0123^..cccc0123''],
      GitV8 [''log'', ''--format=%B'', ''-n'', ''1'', ''cccc0123'']]"
    using tm
    by (simp add: t sh tr0 revParseArgs_def formatPatchArgs_def logArgs_def)
  show ?thesis
    using sh so a b c by blast
qed

subsection \<open>Commit topology of the three strategies\<close>

text \<open>
  The squash strategy, whenever its tasks return: the patches are applied one after
  the other, then the vendored tree is staged and committed once; no other commit
  command is issued.
\<close>

lemma nodeCommands_append [simp]: "nodeCommands (a @ b) = nodeCommands a @ nodeCommands b"
  by (simp add: nodeCommands_def map_filter_def)

lemma nodeCommands_simps [simp]:
  "nodeCommands [] = []"
  "nodeCommands (GitNode cmd args input # tr) = cmd # nodeCommands tr"
  "nodeCommands (GitV8 a # tr) = nodeCommands tr"
  "nodeCommands (ForceRun c a d # tr) = nodeCommands tr"
  "nodeCommands (ReadFile p # tr) = nodeCommands tr"
  "nodeCommands (WriteFile p x # tr) = nodeCommands tr"
  "nodeCommands (Confirm m # tr) = nodeCommands tr"
  "nodeCommands (Prompt m # tr) = nodeCommands tr"
  by (simp_all add: nodeCommands_def map_filter_def)

lemma applyPatch_events:
  "\<exists>evs. trace (snd (applyPatch w i m s)) = trace s @ evs \<and> nodeCommands evs = [m] \<and>
     length (patches (snd (applyPatch w i m s))) = length (patches s)"
proof (cases "outside w (trace s) (applyEvent m s i)")
  case (Inr out)
  then show ?thesis
    using applyPatch_clean [of w s m i out] by (simp add: applyEvent_def)
next
  case (Inl err)
  let ?s1 = "setHadConflicts i (s\<lparr>trace := trace s @ [applyEvent m s i]\<rparr>)"
  have "snd (applyPatch w i m s) = snd (prompt_run resolveMessage (validate w) ?s1)"
    using applyPatch_failed [OF Inl] by (simp add: await_return_snd)
  then have "trace (snd (applyPatch w i m s)) = trace s @ [applyEvent m s i, Prompt resolveMessage]"
    "length (patches (snd (applyPatch w i m s))) = length (patches s)"
    by (simp_all add: prompt_run_trace prompt_run_patches setHadConflicts_def)
  then show ?thesis
    by (intro exI [of _ "[applyEvent m s i, Prompt resolveMessage]"]) (simp add: applyEvent_def)
qed

lemma applyPatchesLoop_events:
  "applyPatchesLoop w idxs s = (Returned (), s') \<Longrightarrow>
   \<exists>evs. trace s' = trace s @ evs \<and> nodeCommands evs = replicate (length idxs) ''apply'' \<and>
     length (patches s') = length (patches s)"
proof (induction idxs arbitrary: s)
  case Nil
  then show ?case by simp
next
  case (Cons i idxs)
  obtain r s1 where r: "applyPatch w i ''apply'' s = (r, s1)"
    by (cases "applyPatch w i ''apply'' s")
  then have rest: "applyPatchesLoop w idxs s1 = (Returned (), s')"
    using Cons.prems by (cases r) (simp_all add: await_def)
  obtain e1 where e1: "trace s1 = trace s @ e1" "nodeCommands e1 = [''apply'']"
    "length (patches s1) = length (patches s)"
    using applyPatch_events [of w i "''apply''" s] r by auto
  obtain e2 where e2: "trace s' = trace s1 @ e2"
    "nodeCommands e2 = replicate (length idxs) ''apply''"
    "length (patches s') = length (patches s1)"
    using Cons.IH [OF rest] by auto
  show ?case
    using e1 e2 by (intro exI [of _ "e1 @ e2"]) simp
qed

lemma bumpTasks_events:
  "t \<in> set (bumpTasks w c) \<Longrightarrow>
   \<exists>evs. trace (snd (task t s)) = trace s @ evs \<and> set (nodeCommands evs) \<subseteq> {''add''} \<and>
     patches (snd (task t s)) = patches s"
  by (auto simp: bumpTasks_def incrementV8Version_def incrementEmbedderVersion_def Let_def
      await_def readFile_def writeFile_def execGitNode_def perform_def return_def throw_def
      split: sum.splits option.splits if_splits)

lemma commitSquashedBackport_events:
  "task (commitSquashedBackport w) s = (Returned (), s') \<Longrightarrow>
   trace s' = trace s @
     [GitNode ''add'' [''deps/v8''] None,
      GitNode ''commit'' [''-m'', formatMessageTitle (shortSha w) (patches s),
                          ''-m'', squashedMessageBody (shortSha w) (patches s)] None]"
  by (auto simp: commitSquashedBackport_def Let_def await_def execGitNode_def perform_def
      return_def split: sum.splits)

lemma newListr_Cons_Returned:
  "newListr (t # ts) s = (Returned (), s') \<Longrightarrow>
   \<exists>s1. task t s = (Returned (), s1) \<and> newListr ts s1 = (Returned (), s')"
  by (cases "task t s") (auto split: outcome.splits)

lemma bumpTasks_then:
  assumes "newListr (bumpTasks w c @ [t]) s1 = (Returned (), s')"
  shows "\<exists>s2 e2. task t s2 = (Returned (), s') \<and> trace s2 = trace s1 @ e2 \<and>
     set (nodeCommands e2) \<subseteq> {''add''} \<and> patches s2 = patches s1"
proof (cases "bumpTasks w c")
  case Nil
  then have "task t s1 = (Returned (), s')"
    using assms newListr_Cons_Returned [of t "[]" s1 s'] by simp
  then show ?thesis
    by (intro exI [of _ s1] exI [of _ "[]"]) simp
next
  case (Cons b bs)
  then have bs: "bs = []" and b: "b \<in> set (bumpTasks w c)"
    by (auto simp: bumpTasks_def split: if_splits)
  obtain s2 where s2: "task b s1 = (Returned (), s2)" "newListr [t] s2 = (Returned (), s')"
    using assms Cons bs newListr_Cons_Returned [of b "[t]" s1 s'] by auto
  obtain e2 where "trace (snd (task b s1)) = trace s1 @ e2" "set (nodeCommands e2) \<subseteq> {''add''}"
    "patches (snd (task b s1)) = patches s1"
    using bumpTasks_events [OF b, of s1] by blast
  then show ?thesis
    using s2 newListr_Cons_Returned [of t "[]" s2 s']
    by (intro exI [of _ s2] exI [of _ e2]) auto
qed

lemma squash_one_commit:
  assumes "newListr ([applyPatches w] @ bumpTasks w c @ [commitSquashedBackport w]) s =
      (Returned (), s')"
  shows "\<exists>evs title body.
      trace s' = trace s @ evs @
        [GitNode ''add'' [''deps/v8''] None,
         GitNode ''commit'' [''-m'', title, ''-m'', body] None] \<and>
      ''commit'' \<notin> set (nodeCommands evs) \<and>
      filter (\<lambda>cmd. cmd = ''apply'') (nodeCommands evs) =
        replicate (length (patches s)) ''apply''"
proof -
  obtain s1 where s1: "task (applyPatches w) s = (Returned (), s1)"
    and rest: "newListr (bumpTasks w c @ [commitSquashedBackport w]) s1 = (Returned (), s')"
    using newListr_Cons_Returned assms by fastforce
  obtain e1 where e1: "trace s1 = trace s @ e1"
    "nodeCommands e1 = replicate (length (patches s)) ''apply''"
    using applyPatchesLoop_events [of w "[0..<length (patches s)]" s s1] s1
    by (auto simp: applyPatches_def)
  obtain s2 e2 where s2: "task (commitSquashedBackport w) s2 = (Returned (), s')"
    and e2: "trace s2 = trace s1 @ e2" "set (nodeCommands e2) \<subseteq> {''add''}"
    using bumpTasks_then [OF rest] by blast
  have "trace s' = trace s @ (e1 @ e2) @
      [GitNode ''add'' [''deps/v8''] None,
       GitNode ''commit'' [''-m'', formatMessageTitle (shortSha w) (patches s2),
                           ''-m'', squashedMessageBody (shortSha w) (patches s2)] None]"
    using commitSquashedBackport_events [OF s2] e1(1) e2(1) by simp
  moreover have "''commit'' \<notin> set (nodeCommands (e1 @ e2))"
    using e1(2) e2(2) by auto
  moreover have "filter (\<lambda>cmd. cmd = ''apply'') (nodeCommands (e1 @ e2)) =
      replicate (length (patches s)) ''apply''"
  proof -
    have "filter (\<lambda>cmd. cmd = ''apply'') (nodeCommands e2) = []"
      using e2(2) by (auto simp: filter_empty_conv)
    then show ?thesis
      using e1(2) by simp
  qed
  ultimately show ?thesis
    by blast
qed

text \<open>
  The preserve-author strategy, whenever its tasks return: the events are one segment
  per patch, in order, that starts with the mailbox-apply of the patch's diff and ends
  with the only commit command of the segment, an amend.
\<close>

lemma map_data_setHadConflicts: "map data (patches (setHadConflicts i s)) = map data (patches s)"
proof (rule nth_equalityI)
  show "length (map data (patches (setHadConflicts i s))) = length (map data (patches s))"
    by (simp add: setHadConflicts_def)
  fix k
  assume "k < length (map data (patches (setHadConflicts i s)))"
  then have "k < length (patches s)"
    by (simp add: setHadConflicts_def)
  then show "map data (patches (setHadConflicts i s)) ! k = map data (patches s) ! k"
    by (cases "k = i") (simp_all add: setHadConflicts_def)
qed

lemma applyPatch_first_event:
  "\<exists>tail. trace (snd (applyPatch w i m s)) = trace s @ applyEvent m s i # tail \<and>
     nodeCommands tail = [] \<and>
     map data (patches (snd (applyPatch w i m s))) = map data (patches s)"
proof (cases "outside w (trace s) (applyEvent m s i)")
  case (Inr out)
  then show ?thesis
    using applyPatch_clean [of w s m i out] by simp
next
  case (Inl err)
  let ?s1 = "setHadConflicts i (s\<lparr>trace := trace s @ [applyEvent m s i]\<rparr>)"
  have "snd (applyPatch w i m s) = snd (prompt_run resolveMessage (validate w) ?s1)"
    using applyPatch_failed [OF Inl] by (simp add: await_return_snd)
  moreover have "map data (patches ?s1) = map data (patches s)"
    using map_data_setHadConflicts [of i "s\<lparr>trace := trace s @ [applyEvent m s i]\<rparr>"] by simp
  moreover have "trace ?s1 = trace s @ [applyEvent m s i]"
    by (simp add: setHadConflicts_def)
  ultimately have "trace (snd (applyPatch w i m s)) =
      trace s @ applyEvent m s i # [Prompt resolveMessage]"
    "map data (patches (snd (applyPatch w i m s))) = map data (patches s)"
    by (simp_all add: prompt_run_trace prompt_run_patches)
  then show ?thesis
    by (intro exI [of _ "[Prompt resolveMessage]"]) simp
qed

lemma amendHEAD_events:
  assumes "task (amendHEAD w i) s = (Returned (), s')"
  shows "\<exists>pre args. trace s' = trace s @ pre @ [GitNode ''commit'' args None] \<and>
     ''commit'' \<notin> set (nodeCommands pre) \<and> ''--amend'' \<in> set args \<and> patches s' = patches s"
proof (cases "hadConflicts (patches s ! i)")
  case False
  then have "trace s' = trace s @ [GitNode ''add'' [''deps/v8''] None] @
      [GitNode ''commit'' (gpgSign s @ [''--amend''] @
         [''-m'', formatMessageTitle (shortSha w) [patches s ! i],
          ''-m'', formatMessageBody (shortSha w) (patches s ! i) False None]) None] \<and>
      patches s' = patches s"
    using assms
    by (auto simp: amendHEAD_def commitTask_def Let_def await_def execGitNode_def perform_def
        return_def split: sum.splits)
  then show ?thesis
    by (intro exI [of _ "[GitNode ''add'' [''deps/v8''] None]"] exI conjI) auto
next
  case True
  then have "\<exists>trailer. trace s' = trace s @
      [GitNode ''am'' (gpgSign s @ [''--continue'']) None,
       ForceRun ''git'' [''config'', ''user.name''] (nodeDir s),
       ForceRun ''git'' [''config'', ''user.email''] (nodeDir s),
       GitNode ''add'' [''deps/v8''] None] @
      [GitNode ''commit'' (gpgSign s @ [''--amend''] @
         [''-m'', formatMessageTitle (shortSha w) [patches s ! i],
          ''-m'', formatMessageBody (shortSha w) (patches s ! i) False (Some trailer)]) None] \<and>
      patches s' = patches s"
    using assms
    by (auto simp: amendHEAD_def commitTask_def getGitConfigEntry_def forceRunAsync_def Let_def
        await_def execGitNode_def perform_def return_def split: sum.splits)
  then obtain trailer where t: "trace s' = trace s @
      [GitNode ''am'' (gpgSign s @ [''--continue'']) None,
       ForceRun ''git'' [''config'', ''user.name''] (nodeDir s),
       ForceRun ''git'' [''config'', ''user.email''] (nodeDir s),
       GitNode ''add'' [''deps/v8''] None] @
      [GitNode ''commit'' (gpgSign s @ [''--amend''] @
         [''-m'', formatMessageTitle (shortSha w) [patches s ! i],
          ''-m'', formatMessageBody (shortSha w) (patches s ! i) False (Some trailer)]) None]"
    "patches s' = patches s"
    by blast
  show ?thesis
    by (intro exI [of _ "[GitNode ''am'' (gpgSign s @ [''--continue'']) None,
       ForceRun ''git'' [''config'', ''user.name''] (nodeDir s),
       ForceRun ''git'' [''config'', ''user.email''] (nodeDir s),
       GitNode ''add'' [''deps/v8''] None]"] exI conjI, rule t(1)) (auto simp: t(2))
qed

lemma cherryPick_patch_events:
  assumes "task (cherryPickV8CommitTask w c i) s = (Returned (), s')"
  shows "\<exists>mid args.
      trace s' = trace s @ applyEvent ''am'' s i # mid @ [GitNode ''commit'' args None] \<and>
      ''commit'' \<notin> set (nodeCommands mid) \<and> ''--amend'' \<in> set args \<and>
      map data (patches s') = map data (patches s)"
proof -
  have "newListr (\<lparr>title = ''Cherry-pick'', task = discard (applyPatch w i ''am'')\<rparr> #
      bumpTasks w s @ [amendHEAD w i]) s = (Returned (), s')"
    using assms by (simp add: cherryPickV8CommitTask_def)
  then obtain s1 where s1: "discard (applyPatch w i ''am'') s = (Returned (), s1)"
    and rest: "newListr (bumpTasks w s @ [amendHEAD w i]) s1 = (Returned (), s')"
    using newListr_Cons_Returned by fastforce
  have "s1 = snd (applyPatch w i ''am'' s)"
    using s1 await_return_snd [of "applyPatch w i ''am''" "\<lambda>a. ()" s] by (simp add: discard_def)
  then obtain tail where tail: "trace s1 = trace s @ applyEvent ''am'' s i # tail"
    "nodeCommands tail = []" "map data (patches s1) = map data (patches s)"
    using applyPatch_first_event [of w i "''am''" s] by auto
  obtain s2 e2 where s2: "task (amendHEAD w i) s2 = (Returned (), s')"
    and e2: "trace s2 = trace s1 @ e2" "set (nodeCommands e2) \<subseteq> {''add''}"
      "patches s2 = patches s1"
    using bumpTasks_then [OF rest] by blast
  obtain pre args where pre: "trace s' = trace s2 @ pre @ [GitNode ''commit'' args None]"
    "''commit'' \<notin> set (nodeCommands pre)" "''--amend'' \<in> set args" "patches s' = patches s2"
    using amendHEAD_events [OF s2] by blast
  have "trace s' = trace s @ applyEvent ''am'' s i # (tail @ e2 @ pre) @
      [GitNode ''commit'' args None]"
    using tail(1) e2(1) pre(1) by simp
  moreover have "''commit'' \<notin> set (nodeCommands (tail @ e2 @ pre))"
    using tail(2) e2(2) pre(2) by auto
  moreover have "map data (patches s') = map data (patches s)"
    using tail(3) e2(3) pre(4) by simp
  ultimately show ?thesis
    using pre(3) by blast
qed

lemma cherryPick_commits:
  assumes "newListr (map (cherryPickV8CommitTask w c) idxs) s = (Returned (), s')"
    and "\<forall>i \<in> set idxs. i < length (patches s)"
  shows "\<exists>segs. trace s' = trace s @ concat segs \<and>
      list_all2 (\<lambda>i seg. \<exists>mid args.
          seg = GitNode ''am'' [''-p1'', ''--3way'', ''--directory=deps/v8'']
                  (Some (data (patches s ! i))) # mid @ [GitNode ''commit'' args None] \<and>
          ''commit'' \<notin> set (nodeCommands mid) \<and> ''--amend'' \<in> set args) idxs segs"
  using assms
proof (induction idxs arbitrary: s)
  case Nil
  then show ?case
    by (intro exI [of _ "[]"]) simp
next
  case (Cons i idxs)
  obtain s1 where s1: "task (cherryPickV8CommitTask w c i) s = (Returned (), s1)"
    and rest: "newListr (map (cherryPickV8CommitTask w c) idxs) s1 = (Returned (), s')"
    using Cons.prems(1) newListr_Cons_Returned by fastforce
  obtain mid args where seg: "trace s1 =
      trace s @ applyEvent ''am'' s i # mid @ [GitNode ''commit'' args None]"
    "''commit'' \<notin> set (nodeCommands mid)" "''--amend'' \<in> set args"
    and same: "map data (patches s1) = map data (patches s)"
    using cherryPick_patch_events [OF s1] by blast
  have len: "length (patches s1) = length (patches s)"
    using same map_eq_imp_length_eq by blast
  have data: "data (patches s1 ! k) = data (patches s ! k)" if "k < length (patches s)" for k
    using that same len by (metis nth_map)
  obtain segs where segs: "trace s' = trace s1 @ concat segs"
    "list_all2 (\<lambda>i seg. \<exists>mid args.
          seg = GitNode ''am'' [''-p1'', ''--3way'', ''--directory=deps/v8'']
                  (Some (data (patches s1 ! i))) # mid @ [GitNode ''commit'' args None] \<and>
          ''commit'' \<notin> set (nodeCommands mid) \<and> ''--amend'' \<in> set args) idxs segs"
    using Cons.IH [OF rest] Cons.prems(2) len by auto
  have segs': "list_all2 (\<lambda>i seg. \<exists>mid args.
          seg = GitNode ''am'' [''-p1'', ''--3way'', ''--directory=deps/v8'']
                  (Some (data (patches s ! i))) # mid @ [GitNode ''commit'' args None] \<and>
          ''commit'' \<notin> set (nodeCommands mid) \<and> ''--amend'' \<in> set args) idxs segs"
    using segs(2) Cons.prems(2) data
    by (auto simp: list_all2_conv_all_nth)
  let ?seg = "applyEvent ''am'' s i # mid @ [GitNode ''commit'' args None]"
  have "trace s' = trace s @ concat (?seg # segs)"
    using seg(1) segs(1) by simp
  moreover have "list_all2 (\<lambda>i seg. \<exists>mid args.
          seg = GitNode ''am'' [''-p1'', ''--3way'', ''--directory=deps/v8'']
                  (Some (data (patches s ! i))) # mid @ [GitNode ''commit'' args None] \<and>
          ''commit'' \<notin> set (nodeCommands mid) \<and> ''--amend'' \<in> set args)
      (i # idxs) (?seg # segs)"
    using segs' seg(2,3) by (auto simp: applyEvent_def)
  ultimately show ?case
    by blast
qed

lemma preserve_author_commits:
  assumes "task (cherryPickV8Commits w) s = (Returned (), s')"
  shows "\<exists>segs. trace s' = trace s @ concat segs \<and>
      list_all2 (\<lambda>i seg. \<exists>mid args.
          seg = GitNode ''am'' [''-p1'', ''--3way'', ''--directory=deps/v8'']
                  (Some (data (patches s ! i))) # mid @ [GitNode ''commit'' args None] \<and>
          ''commit'' \<notin> set (nodeCommands mid) \<and> ''--amend'' \<in> set args)
        [0..<length (patches s)] segs"
  using assms cherryPick_commits [of w s "[0..<length (patches s)]" s s']
  by (simp add: cherryPickV8Commits_def)

text \<open>
  \<^verbatim>\<open>commitPatch\<close> calls \<^verbatim>\<open>commitTask(patch)\<close> without the second argument, so the spread
  \<^verbatim>\<open>...extraArgs\<close> throws once the vendored tree is staged: the task never returns and
  never reaches the commit command. The per-patch task of the default strategy ends
  with it, so that strategy never completes a run over a non-empty patch list.
\<close>

lemma commitPatch_throws:
  "fst (task (commitPatch w i) s) \<noteq> Returned () \<and>
   trace (snd (task (commitPatch w i) s)) = trace s @ [GitNode ''add'' [''deps/v8''] None]"
  by (simp add: commitPatch_def commitTask_def Let_def await_def execGitNode_def perform_def
      throw_def split: sum.splits)

lemma newListr_last_never_returns:
  "(\<And>s. fst (task t s) \<noteq> Returned ()) \<Longrightarrow> fst (newListr (ts @ [t]) s) \<noteq> Returned ()"
proof (induction ts arbitrary: s)
  case Nil
  then show ?case
    using Nil [of s] by (cases "task t s") (auto split: outcome.splits)
next
  case (Cons a ts)
  then show ?case
    by (cases "task a s") (auto split: outcome.splits)
qed

lemma applyPatchTask_never_returns: "fst (task (applyPatchTask w c i) s) \<noteq> Returned ()"
proof -
  have "fst (newListr (([\<lparr>title = ''Apply patch'', task = discard (applyPatch w i ''apply'')\<rparr>] @
      bumpTasks w s) @ [commitPatch w i]) s) \<noteq> Returned ()"
    using commitPatch_throws by (intro newListr_last_never_returns) blast
  then show ?thesis
    by (simp add: applyPatchTask_def)
qed

lemma applyAndCommitPatches_never_returns:
  assumes "patches s \<noteq> []"
  shows "fst (task (applyAndCommitPatches w) s) \<noteq> Returned ()"
proof -
  obtain n where n: "length (patches s) = Suc n"
    using assms by (cases "patches s") auto
  have "[0..<Suc n] = 0 # [Suc 0..<Suc n]"
    by (simp add: upt_rec)
  then have "task (applyAndCommitPatches w) s =
      newListr (applyPatchTask w s 0 # map (applyPatchTask w s) [Suc 0..<Suc n]) s"
    by (simp add: applyAndCommitPatches_def n)
  then show ?thesis
    using applyPatchTask_never_returns [of w s 0 s]
    by (cases "task (applyPatchTask w s 0) s") (auto split: outcome.splits)
qed

text \<open>
  Claim C1, on the request for two commits, every command succeeding. With \<open>squash\<close>
  the run returns and commits once, after both patches are applied. With
  \<open>preserveOriginalAuthor\<close> (and no \<open>squash\<close>) the run returns and each patch is applied
  with \<open>am\<close> and then committed (the amend). With neither, the claim asks for a fresh
  commit per patch, but the run applies the first patch, stages the vendored tree and
  throws a TypeError: no commit command is issued and the second patch is not applied.
\<close>

theorem strategies_on_two_commits:
  "fst (task (doBackport upstreamWorld noTask (twoCommits\<lparr>squash := True\<rparr>))
          (twoCommits\<lparr>squash := True\<rparr>)) = Returned () \<and>
   nodeCommands (trace (snd (task (doBackport upstreamWorld noTask (twoCommits\<lparr>squash := True\<rparr>))
          (twoCommits\<lparr>squash := True\<rparr>)))) = [''apply'', ''apply'', ''add'', ''commit''] \<and>
   fst (task (doBackport upstreamWorld noTask (twoCommits\<lparr>preserveOriginalAuthor := True\<rparr>))
          (twoCommits\<lparr>preserveOriginalAuthor := True\<rparr>)) = Returned () \<and>
   nodeCommands (trace (snd (task
          (doBackport upstreamWorld noTask (twoCommits\<lparr>preserveOriginalAuthor := True\<rparr>))
          (twoCommits\<lparr>preserveOriginalAuthor := True\<rparr>)))) =
     [''am'', ''add'', ''commit'', ''am'', ''add'', ''commit''] \<and>
   fst (task (doBackport upstreamWorld noTask twoCommits) twoCommits) =
     Thrown (TypeError ''extraArgs is not iterable'') \<and>
   trace (snd (task (doBackport upstreamWorld noTask twoCommits) twoCommits)) =
     [GitV8 [''rev-parse'', ''bbbb''], GitV8 [''rev-parse'', ''aaaa''],
      GitV8 [''format-patch'', ''--stdout'', ''bbbb0123^..bbbb0123''],
      GitV8 [''log'', ''--format=%B'', ''-n'', ''1'', ''bbbb0123''],
      GitV8 [''format-patch'', ''--stdout'', ''aaaa0123^..aaaa0123''],
      GitV8 [''log'', ''--format=%B'', ''-n'', ''1'', ''aaaa0123''],
      GitNode ''apply'' [''-p1'', ''--3way'', ''--directory=deps/v8'']
        (Some ''diff bbbb0123^..bbbb0123''),
      GitNode ''add'' [''deps/v8''] None]"
  by code_simp

end
